theory Spec2Isabelle
  imports Main "HOL-Library.Multiset"
begin

section \<open>JavaScript primitives used by the sources\<close>

text \<open>
  A JavaScript string is modelled as a \<^typ>\<open>string\<close>, one \<^typ>\<open>char\<close> per code unit; the
  model covers the code units below 256. Numbers that the sources use as line numbers,
  list positions and counters are integers.
\<close>

definition dq :: char where
  "dq = CHR 0x22"

definition nl :: char where
  "nl = CHR 0x0A"

definition backtick :: char where
  "backtick = CHR 0x60"

text \<open>White space as \<^verbatim>\<open>String.prototype.trim\<close> and the regular expression class
  \<^verbatim>\<open>\s\<close> see it: tab, line feed, vertical tab, form feed, carriage return, space and
  the no-break space.\<close>

definition js_whitespace :: "char \<Rightarrow> bool" where
  "js_whitespace c =
     (let n = (of_char c :: nat) in n = 32 \<or> (9 \<le> n \<and> n \<le> 13) \<or> n = 160)"

definition trim :: "string \<Rightarrow> string" where
  "trim s = rev (dropWhile js_whitespace (rev (dropWhile js_whitespace s)))"

text \<open>\<^verbatim>\<open>s.split(sep)\<close> for a separator of one character: the empty string splits
  into one empty part.\<close>

fun split_char :: "char \<Rightarrow> string \<Rightarrow> string list" where
  "split_char sep [] = [[]]"
| "split_char sep (c # cs) =
     (if c = sep then [] # split_char sep cs
      else (case split_char sep cs of
              [] \<Rightarrow> [[c]]
            | p # ps \<Rightarrow> (c # p) # ps))"

text \<open>\<^verbatim>\<open>parts.join(sep)\<close>.\<close>

fun join_with :: "string \<Rightarrow> string list \<Rightarrow> string" where
  "join_with sep [] = []"
| "join_with sep [x] = x"
| "join_with sep (x # y # ys) = x @ sep @ join_with sep (y # ys)"

text \<open>Decimal rendering of a number inside a template literal.\<close>

definition digit_char :: "nat \<Rightarrow> char" where
  "digit_char d = ''0123456789'' ! d"

fun show_nat :: "nat \<Rightarrow> string" where
  "show_nat n = (if n < 10 then [digit_char n] else show_nat (n div 10) @ [digit_char (n mod 10)])"

declare show_nat.simps [simp del]

definition show_int :: "int \<Rightarrow> string" where
  "show_int i = (if i < 0 then CHR ''-'' # show_nat (nat (- i)) else show_nat (nat i))"

definition is_alnum :: "char \<Rightarrow> bool" where
  "is_alnum c =
     (let n = (of_char c :: nat)
      in (48 \<le> n \<and> n \<le> 57) \<or> (65 \<le> n \<and> n \<le> 90) \<or> (97 \<le> n \<and> n \<le> 122))"

section \<open>Parameter validation (utils/validation)\<close>

text \<open>A thrown \<^verbatim>\<open>Error\<close> carries its message; a \<^verbatim>\<open>TypeError\<close> is what the runtime
  raises on a property read of \<^verbatim>\<open>undefined\<close> or a call of a non-function.\<close>

datatype js_error = Error string | TypeError

text \<open>\<^verbatim>\<open>/^[a-zA-Z0-9]([a-zA-Z0-9-]*[a-zA-Z0-9])?$/\<close>: one alphanumeric, then optionally
  any run of alphanumerics and hyphens closed by an alphanumeric.\<close>

definition repo_char :: "char \<Rightarrow> bool" where
  "repo_char c = (is_alnum c \<or> c = CHR ''-'')"

definition validPattern_repo :: "string \<Rightarrow> bool" where
  "validPattern_repo s =
     (case s of
        [] \<Rightarrow> False
      | c # cs \<Rightarrow> is_alnum c \<and> (cs = [] \<or> (list_all repo_char (butlast cs) \<and> is_alnum (last cs))))"

definition validateRepo :: "string \<Rightarrow> js_error + unit" where
  "validateRepo repo =
     (if repo = [] then Inl (Error ''Repository is required and must be a string'')
      else
        let trimmed = trim repo in
        if length trimmed = 0 then Inl (Error ''Repository cannot be empty'')
        else
          (case split_char (CHR ''/'') trimmed of
             [owner, repoName] \<Rightarrow>
               if owner = [] \<or> repoName = [] then
                 Inl (Error (''Invalid repository format. Both owner and repo name are required, got ''
                             @ [dq] @ repo @ [dq]))
               else if \<not> validPattern_repo owner then
                 Inl (Error (''Invalid repository owner '' @ [dq] @ owner @ [dq]
                             @ ''. Must contain only alphanumeric characters and hyphens, and cannot start or end with a hyphen.''))
               else if \<not> validPattern_repo repoName then
                 Inl (Error (''Invalid repository name '' @ [dq] @ repoName @ [dq]
                             @ ''. Must contain only alphanumeric characters and hyphens, and cannot start or end with a hyphen.''))
               else Inr ()
           | _ \<Rightarrow>
               Inl (Error (''Invalid repository format. Expected '' @ [dq] @ ''owner/repo'' @ [dq]
                           @ '', got '' @ [dq] @ repo @ [dq]))))"

definition validateQuestion :: "string \<Rightarrow> js_error + unit" where
  "validateQuestion question =
     (if question = [] then Inl (Error ''Question is required and must be a string'')
      else
        let trimmed = trim question in
        if length trimmed = 0 then Inl (Error ''Question cannot be empty'')
        else if length trimmed > 10000 then
          Inl (Error (''Question is too long ('' @ show_nat (length trimmed)
                      @ '' characters). Maximum length is 10,000 characters.''))
        else Inr ())"

text \<open>\<^verbatim>\<open>/^[a-zA-Z0-9_-]+$/\<close>.\<close>

definition queryId_char :: "char \<Rightarrow> bool" where
  "queryId_char c = (is_alnum c \<or> c = CHR ''_'' \<or> c = CHR ''-'')"

definition validPattern_queryId :: "string \<Rightarrow> bool" where
  "validPattern_queryId s = (s \<noteq> [] \<and> list_all queryId_char s)"

definition validateQueryId :: "string \<Rightarrow> js_error + unit" where
  "validateQueryId queryId =
     (if queryId = [] then Inl (Error ''Query ID is required and must be a string'')
      else
        let trimmed = trim queryId in
        if length trimmed = 0 then Inl (Error ''Query ID cannot be empty'')
        else if \<not> validPattern_queryId trimmed then
          Inl (Error (''Invalid query ID format '' @ [dq] @ queryId @ [dq]
                      @ ''. Must contain only alphanumeric characters, hyphens, and underscores.''))
        else Inr ())"

text \<open>The repository format in the words of the specification: \<open>owner/repo\<close>, each segment
  non-empty, made of alphanumerics and hyphens only, and neither starting nor ending with
  a hyphen.\<close>

definition segment_wellformed :: "string \<Rightarrow> bool" where
  "segment_wellformed seg =
     (seg \<noteq> [] \<and> list_all repo_char seg \<and> hd seg \<noteq> CHR ''-'' \<and> last seg \<noteq> CHR ''-'')"

definition owner_repo_form :: "string \<Rightarrow> bool" where
  "owner_repo_form s =
     (\<exists>owner name. s = owner @ ''/'' @ name \<and> segment_wellformed owner \<and> segment_wellformed name)"

section \<open>More string primitives\<close>

text \<open>\<^verbatim>\<open>s.startsWith(p)\<close>, \<^verbatim>\<open>s.includes(p)\<close>, \<^verbatim>\<open>s.lastIndexOf(p)\<close> and
  \<^verbatim>\<open>s.indexOf(c, from)\<close>; a missing occurrence (the source's \<open>-1\<close>) is \<open>None\<close>.\<close>

fun starts_with :: "string \<Rightarrow> string \<Rightarrow> bool" where
  "starts_with s [] = True"
| "starts_with [] (p # ps) = False"
| "starts_with (c # cs) (p # ps) = (c = p \<and> starts_with cs ps)"

fun js_includes :: "string \<Rightarrow> string \<Rightarrow> bool" where
  "js_includes [] p = (p = [])"
| "js_includes (c # cs) p = (starts_with (c # cs) p \<or> js_includes cs p)"

fun lastIndexOf :: "string \<Rightarrow> string \<Rightarrow> nat option" where
  "lastIndexOf [] p = (if p = [] then Some 0 else None)"
| "lastIndexOf (c # cs) p =
     (case lastIndexOf cs p of
        Some i \<Rightarrow> Some (Suc i)
      | None \<Rightarrow> if starts_with (c # cs) p then Some 0 else None)"

fun indexOf_char :: "string \<Rightarrow> char \<Rightarrow> nat option" where
  "indexOf_char [] x = None"
| "indexOf_char (c # cs) x = (if c = x then Some 0 else map_option Suc (indexOf_char cs x))"

definition indexOf_char_from :: "string \<Rightarrow> char \<Rightarrow> nat \<Rightarrow> nat option" where
  "indexOf_char_from s x fromIndex = map_option (\<lambda>i. i + fromIndex) (indexOf_char (drop fromIndex s) x)"

text \<open>\<^verbatim>\<open>xs.slice(start, end)\<close> on an array: a negative position counts from the end,
  and both positions are clamped to the array.\<close>

definition slice_pos :: "nat \<Rightarrow> int \<Rightarrow> nat" where
  "slice_pos len i = (if i < 0 then nat (max (int len + i) 0) else min (nat i) len)"

definition js_slice :: "'a list \<Rightarrow> int \<Rightarrow> int \<Rightarrow> 'a list" where
  "js_slice xs start stop =
     (let k = slice_pos (length xs) start; final = slice_pos (length xs) stop
      in take (final - k) (drop k xs))"

text \<open>The property names every object created by \<^verbatim>\<open>{}\<close> inherits from
  \<^verbatim>\<open>Object.prototype\<close>: a read of one of them on such an object yields the inherited
  function (for \<^verbatim>\<open>__proto__\<close>, the prototype object), not \<^verbatim>\<open>undefined\<close>.\<close>

definition inherited_property :: "string \<Rightarrow> bool" where
  "inherited_property k =
     (k \<in> set [''constructor'', ''__defineGetter__'', ''__defineSetter__'', ''hasOwnProperty'',
                ''__lookupGetter__'', ''__lookupSetter__'', ''isPrototypeOf'',
                ''propertyIsEnumerable'', ''toString'', ''valueOf'', ''__proto__'',
                ''toLocaleString''])"

section \<open>The response assembler (parsers/json-transformer)\<close>

subsection \<open>Data model\<close>

text \<open>\<^verbatim>\<open>Reference\<close> and \<^verbatim>\<open>ReferenceData\<close> declare the same three fields.\<close>

record Reference =
  file_path :: string
  range_start :: int
  range_end :: int

type_synonym ReferenceData = Reference

record StatsData =
  key :: string
  val :: int

text \<open>The \<^verbatim>\<open>data\<close> of a response item is declared as
  \<^verbatim>\<open>string | ReferenceData | StatsData | [string, string, string]\<close>, with no link to the
  item's \<^verbatim>\<open>type\<close>; an absent \<^verbatim>\<open>data\<close> is \<open>None\<close>.\<close>

datatype item_data =
    DString string
  | DReference ReferenceData
  | DStats StatsData
  | DTuple string string string

record ResponseItem =
  type :: string
  data :: "item_data option"

record ApiQuery =
  user_query :: string
  use_knowledge :: bool
  engine_id :: string
  repo_context_ids :: "string list"
  response :: "ResponseItem list"
  error :: "string option"
  state :: string
  redis_stream :: "string option"

text \<open>\<^verbatim>\<open>rawResponse: ApiQuery | ApiQuery[]\<close>.\<close>

datatype raw_response = Single ApiQuery | Many "ApiQuery list"

record InputResponse =
  timestamp :: string
  success :: bool
  queryId :: string
  answer :: string
  references :: "Reference list"
  stats :: "(string \<times> int) list"
  rawResponse :: raw_response

record AnswerSegment =
  segment_text :: string
  reference :: "string option"

record ReferencedFile =
  reference_range :: string
  reference_material :: string

record FullContextItem =
  file_name :: string
  file_text :: string

record ConversationQuery =
  user_query :: string
  answer_segments :: "AnswerSegment list"

text \<open>\<^verbatim>\<open>referenced_files\<close> is a JavaScript object used as a dictionary: its own
  properties are kept here in the order of their creation.\<close>

record OutputResponse =
  query_id :: string
  conversation :: "ConversationQuery list"
  repo_context_ids :: "string list"
  referenced_files :: "(string \<times> ReferencedFile list) list"
  full_context :: "FullContextItem list"

subsection \<open>The pattern for prefixed paths\<close>

text \<open>
  \<^verbatim>\<open>filePath.match(/Repo\s+([^:]+):\s+([^:]+)(?::\d+-\d+)?/)\<close>, giving the two groups of
  the leftmost match. After \<^verbatim>\<open>Repo\<close> the run of white space \<open>w\<close> is not empty. The
  first group ends at the first colon behind it: it is the text between \<open>w\<close> and that
  colon, or, when the colon follows \<open>w\<close> directly, the last character of \<open>w\<close> (the
  matcher gives one white space back, so \<open>w\<close> has two characters or more). The second
  group is found the same way behind the colon, and ends at the next colon or at the end
  of the string. The optional range suffix never changes the groups.
\<close>

definition first_group :: "string \<Rightarrow> string \<Rightarrow> (string \<times> string) option" where
  "first_group w rest =
     (let g = takeWhile (\<lambda>c. c \<noteq> CHR '':'') rest; tail = dropWhile (\<lambda>c. c \<noteq> CHR '':'') rest in
      if g \<noteq> [] then (case tail of [] \<Rightarrow> None | _ # after \<Rightarrow> Some (g, after))
      else (case rest of
              [] \<Rightarrow> None
            | _ # after \<Rightarrow> if length w \<ge> 2 then Some ([last w], after) else None))"

definition second_group :: "string \<Rightarrow> string option" where
  "second_group after =
     (let w2 = takeWhile js_whitespace after;
          g2 = takeWhile (\<lambda>c. c \<noteq> CHR '':'') (dropWhile js_whitespace after) in
      if w2 = [] then None
      else if g2 \<noteq> [] then Some g2
      else if length w2 \<ge> 2 then Some [last w2]
      else None)"

definition match_repo_at :: "string \<Rightarrow> (string \<times> string) option" where
  "match_repo_at r =
     (let w = takeWhile js_whitespace r; rest = dropWhile js_whitespace r in
      if w = [] then None
      else (case first_group w rest of
              None \<Rightarrow> None
            | Some (g1, after) \<Rightarrow>
                (case second_group after of
                   None \<Rightarrow> None
                 | Some g2 \<Rightarrow> Some (g1, g2))))"

fun match_repo :: "string \<Rightarrow> (string \<times> string) option" where
  "match_repo [] = None"
| "match_repo (c # cs) =
     (if starts_with (c # cs) ''Repo'' then
        (case match_repo_at (drop 4 (c # cs)) of
           Some m \<Rightarrow> Some m
         | None \<Rightarrow> match_repo cs)
      else match_repo cs)"

subsection \<open>Answer segments\<close>

definition range_suffix :: "int \<Rightarrow> int \<Rightarrow> string" where
  "range_suffix rangeStart rangeEnd = '':'' @ show_int rangeStart @ ''-'' @ show_int rangeEnd"

text \<open>The reference string of a citation. The declared type makes both range fields
  numbers, so the source's tests against \<^verbatim>\<open>undefined\<close> hold.\<close>

definition referenceStr :: "ReferenceData \<Rightarrow> string" where
  "referenceStr referenceData =
     (let filePath = file_path referenceData;
          rangeStart = range_start referenceData;
          rangeEnd = range_end referenceData in
      if js_includes filePath ''Repo '' then
        (case match_repo filePath of
           Some (m1, m2) \<Rightarrow> m1 @ '': '' @ m2 @ range_suffix rangeStart rangeEnd
         | None \<Rightarrow> filePath)
      else
        let parts = split_char (CHR ''/'') filePath in
        if length parts \<ge> 3 then
          join_with ''/'' (take 2 parts) @ '': '' @ join_with ''/'' (drop 2 parts)
            @ range_suffix rangeStart rangeEnd
        else filePath @ range_suffix rangeStart rangeEnd)"

text \<open>
  The loop over one query's response items, with \<open>currentChunks\<close> and
  \<open>queryAnswerSegments\<close> as its state. An item whose \<^verbatim>\<open>type\<close> is \<open>reference\<close> and whose
  \<^verbatim>\<open>data\<close> is an object that is not an array enters the second branch; when that object
  is not a \<^verbatim>\<open>ReferenceData\<close> its \<^verbatim>\<open>file_path\<close> is \<^verbatim>\<open>undefined\<close>, and
  \<^verbatim>\<open>filePath.includes\<close> raises a \<^verbatim>\<open>TypeError\<close>.
\<close>

fun segments_loop ::
  "ResponseItem list \<Rightarrow> string list \<Rightarrow> AnswerSegment list \<Rightarrow> js_error + AnswerSegment list" where
  "segments_loop [] currentChunks segs =
     Inr (if length currentChunks > 0
          then segs @ [\<lparr>segment_text = concat currentChunks, reference = None\<rparr>]
          else segs)"
| "segments_loop (item # items) currentChunks segs =
     (case (type item, data item) of
        (t, Some (DString s)) \<Rightarrow>
          if t = ''chunk'' \<and> s \<noteq> [] then segments_loop items (currentChunks @ [s]) segs
          else segments_loop items currentChunks segs
      | (t, Some (DReference referenceData)) \<Rightarrow>
          if t = ''reference'' \<and> length currentChunks > 0 then
            segments_loop items []
              (segs @ [\<lparr>segment_text = concat currentChunks,
                         reference = Some (referenceStr referenceData)\<rparr>])
          else segments_loop items currentChunks segs
      | (t, Some (DStats _)) \<Rightarrow>
          if t = ''reference'' \<and> length currentChunks > 0 then Inl TypeError
          else segments_loop items currentChunks segs
      | _ \<Rightarrow> segments_loop items currentChunks segs)"

fun conversation_loop :: "ApiQuery list \<Rightarrow> js_error + ConversationQuery list" where
  "conversation_loop [] = Inr []"
| "conversation_loop (query # queries) =
     (case segments_loop (response query) [] [] of
        Inl e \<Rightarrow> Inl e
      | Inr queryAnswerSegments \<Rightarrow>
          (case conversation_loop queries of
             Inl e \<Rightarrow> Inl e
           | Inr rest \<Rightarrow>
               Inr (\<lparr>ConversationQuery.user_query = ApiQuery.user_query query,
                      answer_segments = queryAnswerSegments\<rparr> # rest)))"

subsection \<open>The progress marker at the start of the answer\<close>

definition strip_search_preamble :: "string \<Rightarrow> string" where
  "strip_search_preamble txt =
     (case lastIndexOf txt ''Searching codebase...'' of
        None \<Rightarrow> txt
      | Some lastIndex \<Rightarrow>
          let endOfLine = (case indexOf_char_from txt nl lastIndex of
                             None \<Rightarrow> length txt
                           | Some i \<Rightarrow> i)
          in dropWhile (\<lambda>c. c = nl) (drop (endOfLine + 1) txt))"

definition filter_preamble :: "ConversationQuery list \<Rightarrow> ConversationQuery list" where
  "filter_preamble conv =
     (case conv of
        [] \<Rightarrow> conv
      | q # qs \<Rightarrow>
          (case answer_segments q of
             [] \<Rightarrow> conv
           | firstSegment # segs \<Rightarrow>
               if segment_text firstSegment \<noteq> []
                  \<and> js_includes (segment_text firstSegment) ''Searching codebase...''
               then q\<lparr>answer_segments :=
                        firstSegment\<lparr>segment_text := strip_search_preamble (segment_text firstSegment)\<rparr>
                        # segs\<rparr> # qs
               else conv))"

subsection \<open>File captures and referenced files\<close>

text \<open>The captures of all queries, in order: the \<open>full_context\<close> entries, and
  \<open>fileContentMap\<close> as a list of bindings in which a later one for the same path comes
  first.\<close>

fun file_contents_items ::
  "ResponseItem list \<Rightarrow> (FullContextItem list \<times> (string \<times> string list) list)
     \<Rightarrow> (FullContextItem list \<times> (string \<times> string list) list)" where
  "file_contents_items [] acc = acc"
| "file_contents_items (item # items) (fullContext, fileContentMap) =
     (case (type item, data item) of
        (t, Some (DTuple repoPath filename content)) \<Rightarrow>
          if t = ''file_contents'' then
            (let fullPath = repoPath @ ''/'' @ filename in
             file_contents_items items
               (fullContext @ [\<lparr>file_name = fullPath, file_text = content\<rparr>],
                (fullPath, split_char nl content) # fileContentMap))
          else file_contents_items items (fullContext, fileContentMap)
      | _ \<Rightarrow> file_contents_items items (fullContext, fileContentMap))"

fun file_contents_loop ::
  "ApiQuery list \<Rightarrow> (FullContextItem list \<times> (string \<times> string list) list)
     \<Rightarrow> (FullContextItem list \<times> (string \<times> string list) list)" where
  "file_contents_loop [] acc = acc"
| "file_contents_loop (query # queries) acc =
     file_contents_loop queries (file_contents_items (response query) acc)"

definition resolve_filePath :: "string \<Rightarrow> string" where
  "resolve_filePath filePath =
     (if js_includes filePath ''Repo '' then
        (case match_repo filePath of
           Some (m1, m2) \<Rightarrow> m1 @ ''/'' @ m2
         | None \<Rightarrow> filePath)
      else filePath)"

definition referenceMaterial :: "(string \<times> string list) list \<Rightarrow> string \<Rightarrow> Reference \<Rightarrow> string" where
  "referenceMaterial fileContentMap filePath ref =
     (case map_of fileContentMap filePath of
        None \<Rightarrow> []
      | Some fileLines \<Rightarrow>
          let startLine = max 0 (range_start ref - 1);
              endLine = min (int (length fileLines) - 1) (range_end ref)
          in if startLine \<le> endLine
             then join_with [nl] (js_slice fileLines startLine (endLine + 1))
             else [])"

text \<open>\<^verbatim>\<open>if (!obj[k]) obj[k] = []; obj[k].push(v)\<close> on an object whose own values are
  arrays, for a key that is not inherited.\<close>

fun push_entry :: "(string \<times> 'a list) list \<Rightarrow> string \<Rightarrow> 'a \<Rightarrow> (string \<times> 'a list) list" where
  "push_entry [] k v = [(k, [v])]"
| "push_entry ((k', vs) # kvs) k v =
     (if k' = k then (k', vs @ [v]) # kvs else (k', vs) # push_entry kvs k v)"

text \<open>
  The loop over \<open>input.references\<close>. For a path that names an inherited property the
  reads \<^verbatim>\<open>output.referenced_files[filePath]\<close> and \<^verbatim>\<open>fileContentMap[filePath]\<close> yield the
  inherited value (no capture has such a path: a capture's path contains a slash), and
  the call of its \<^verbatim>\<open>push\<close> raises a \<^verbatim>\<open>TypeError\<close>, if that of \<^verbatim>\<open>slice\<close> has not.
\<close>

fun references_loop ::
  "(string \<times> string list) list \<Rightarrow> Reference list \<Rightarrow> (string \<times> ReferencedFile list) list
     \<Rightarrow> js_error + (string \<times> ReferencedFile list) list" where
  "references_loop fileContentMap [] referencedFiles = Inr referencedFiles"
| "references_loop fileContentMap (ref # refs) referencedFiles =
     (if range_start ref = 0 \<and> range_end ref = 0 then
        references_loop fileContentMap refs referencedFiles
      else
        let filePath = resolve_filePath (file_path ref) in
        if inherited_property filePath then Inl TypeError
        else
          references_loop fileContentMap refs
            (push_entry referencedFiles filePath
               \<lparr>reference_range = show_int (range_start ref) @ ''-'' @ show_int (range_end ref),
                reference_material = referenceMaterial fileContentMap filePath ref\<rparr>))"

subsection \<open>transformResponse\<close>

definition transformResponse :: "InputResponse \<Rightarrow> js_error + OutputResponse" where
  "transformResponse input =
     (let queries = (case rawResponse input of Many qs \<Rightarrow> qs | Single q \<Rightarrow> [q]) in
      case queries of
        [] \<Rightarrow> Inl TypeError
      | first # _ \<Rightarrow>
          (case conversation_loop queries of
             Inl e \<Rightarrow> Inl e
           | Inr conv \<Rightarrow>
               let (fullContext, fileContentMap) = file_contents_loop queries ([], []) in
               (case references_loop fileContentMap (references input) [] of
                  Inl e \<Rightarrow> Inl e
                | Inr referencedFiles \<Rightarrow>
                    Inr \<lparr>query_id = queryId input,
                         conversation = filter_preamble conv,
                         repo_context_ids = ApiQuery.repo_context_ids first,
                         referenced_files = referencedFiles,
                         full_context = fullContext\<rparr>)))"

subsection \<open>Vocabulary for the properties of the assembler\<close>

text \<open>A range of 0 and 0 is the degenerate one.\<close>

definition degenerate :: "Reference \<Rightarrow> bool" where
  "degenerate r = (range_start r = 0 \<and> range_end r = 0)"

text \<open>The fragments by kind: a text chunk that is not empty, a citation, and an item
  typed \<open>reference\<close> whose object is not a \<^verbatim>\<open>ReferenceData\<close>.\<close>

definition is_text_chunk :: "ResponseItem \<Rightarrow> bool" where
  "is_text_chunk item =
     (type item = ''chunk'' \<and> (case data item of Some (DString s) \<Rightarrow> s \<noteq> [] | _ \<Rightarrow> False))"

definition is_citation :: "ResponseItem \<Rightarrow> bool" where
  "is_citation item =
     (type item = ''reference'' \<and> (case data item of Some (DReference r) \<Rightarrow> True | _ \<Rightarrow> False))"

definition nondegenerate_citation :: "ResponseItem \<Rightarrow> bool" where
  "nondegenerate_citation item =
     (type item = ''reference''
      \<and> (case data item of Some (DReference r) \<Rightarrow> \<not> degenerate r | _ \<Rightarrow> False))"

definition malformed_citation :: "ResponseItem \<Rightarrow> bool" where
  "malformed_citation item =
     (type item = ''reference'' \<and> (case data item of Some (DStats s) \<Rightarrow> True | _ \<Rightarrow> False))"

text \<open>The citations of a fragment sequence that have text to attach to: those met while
  a text chunk is pending, that is, seen since the last such citation or the start.\<close>

fun attached_citations :: "ResponseItem list \<Rightarrow> bool \<Rightarrow> nat" where
  "attached_citations [] pending = 0"
| "attached_citations (item # items) pending =
     (if is_text_chunk item then attached_citations items True
      else if is_citation item then
        (if pending then Suc (attached_citations items False)
         else attached_citations items False)
      else attached_citations items pending)"

definition referenced_segments :: "AnswerSegment list \<Rightarrow> nat" where
  "referenced_segments segs = length (filter (\<lambda>s. reference s \<noteq> None) segs)"

definition unreferenced_segments :: "AnswerSegment list \<Rightarrow> nat" where
  "unreferenced_segments segs = length (filter (\<lambda>s. reference s = None) segs)"

definition queries_of :: "InputResponse \<Rightarrow> ApiQuery list" where
  "queries_of input = (case rawResponse input of Many qs \<Rightarrow> qs | Single q \<Rightarrow> [q])"

text \<open>What the amended count property says of one query: its fragment sequence and the
  answer segments made from it.\<close>

definition segments_ok :: "ResponseItem list \<Rightarrow> AnswerSegment list \<Rightarrow> bool" where
  "segments_ok items segs \<longleftrightarrow>
     referenced_segments segs = attached_citations items False
     \<and> referenced_segments segs \<le> length (filter is_citation items)
     \<and> unreferenced_segments segs \<le> 1
     \<and> (\<forall>s\<in>set (butlast segs). reference s \<noteq> None)"

text \<open>Fragments and inputs for the worked examples.\<close>

definition chunk :: "string \<Rightarrow> ResponseItem" where
  "chunk s = \<lparr>type = ''chunk'', data = Some (DString s)\<rparr>"

definition citation :: "string \<Rightarrow> int \<Rightarrow> int \<Rightarrow> ResponseItem" where
  "citation path a b =
     \<lparr>type = ''reference'',
      data = Some (DReference \<lparr>file_path = path, range_start = a, range_end = b\<rparr>)\<rparr>"

definition capture :: "string \<Rightarrow> string \<Rightarrow> string \<Rightarrow> ResponseItem" where
  "capture repoPath filename content =
     \<lparr>type = ''file_contents'', data = Some (DTuple repoPath filename content)\<rparr>"

definition example_query :: "ResponseItem list \<Rightarrow> ApiQuery" where
  "example_query items =
     \<lparr>ApiQuery.user_query = ''How does it work?'', use_knowledge = True, engine_id = ''engine'',
      ApiQuery.repo_context_ids = [''ctx-1''], response = items, error = None,
      state = ''done'', redis_stream = None\<rparr>"

definition example_input :: "ResponseItem list \<Rightarrow> Reference list \<Rightarrow> InputResponse" where
  "example_input items refs =
     \<lparr>timestamp = ''2025-01-01T00:00:00.000Z'', success = True, queryId = ''q_1'',
      answer = [], references = refs, stats = [],
      rawResponse = Many [example_query items]\<rparr>"

text \<open>An entry \<open>e\<close> under key \<open>k\<close> of the referenced-file map stems from a citation of the
  input whose range is not degenerate.\<close>

definition from_citation :: "Reference list \<Rightarrow> string \<Rightarrow> ReferencedFile \<Rightarrow> bool" where
  "from_citation refs k e \<longleftrightarrow>
     (\<exists>r\<in>set refs. \<not> degenerate r \<and> k = resolve_filePath (file_path r)
        \<and> reference_range e = show_int (range_start r) @ ''-'' @ show_int (range_end r))"

definition twenty_lines :: "string list" where
  "twenty_lines =
     [''l1'', ''l2'', ''l3'', ''l4'', ''l5'', ''l6'', ''l7'', ''l8'', ''l9'', ''l10'',
      ''l11'', ''l12'', ''l13'', ''l14'', ''l15'', ''l16'', ''l17'', ''l18'', ''l19'', ''l20'']"

section \<open>The document renderer (parsers/markdown-generator)\<close>

text \<open>The selection of citation snippets is a list of integers, as
  \<open>validateReferencesNumbers\<close> admits them; \<open>contextRanges\<close> is a \<^verbatim>\<open>Map\<close> from file name to
  a start and an end line.\<close>

record MarkdownOptions =
  includeAnswer :: bool
  includeReferencesList :: bool
  referencesAll :: bool
  referencesNumbers :: "int list option"
  contextAll :: bool
  contextFiles :: "string list option"
  contextRanges :: "(string \<times> (int \<times> int)) list option"

definition formatQueryId :: "OutputResponse \<Rightarrow> string" where
  "formatQueryId d = ''# Query ID'' @ [nl, nl] @ query_id d @ [nl]"

subsection \<open>The answer with its citation markers\<close>

text \<open>What a template literal prints for an inherited property of \<open>referenceMap\<close>: the
  prototype object for \<^verbatim>\<open>__proto__\<close>, a built-in function otherwise.\<close>

definition inherited_text :: "string \<Rightarrow> string" where
  "inherited_text k =
     (if k = ''__proto__'' then ''[object Object]''
      else ''function '' @ (if k = ''constructor'' then ''Object'' else k) @ ''() { [native code] }'')"

text \<open>The loop over the segments of one query; the state is the text so far,
  \<open>referenceCounter\<close> and the own properties of \<open>referenceMap\<close>.\<close>

fun answer_segments_loop ::
  "AnswerSegment list \<Rightarrow> string \<times> nat \<times> (string \<times> nat) list
     \<Rightarrow> string \<times> nat \<times> (string \<times> nat) list" where
  "answer_segments_loop [] st = st"
| "answer_segments_loop (segment # segs) (answerText, referenceCounter, referenceMap) =
     (case reference segment of
        None \<Rightarrow>
          answer_segments_loop segs (answerText @ segment_text segment, referenceCounter, referenceMap)
      | Some r \<Rightarrow>
          if r = [] then
            answer_segments_loop segs (answerText @ segment_text segment, referenceCounter, referenceMap)
          else
            (case map_of referenceMap r of
               Some n \<Rightarrow>
                 answer_segments_loop segs
                   (answerText @ segment_text segment @ '' ['' @ show_nat n @ '']'',
                    referenceCounter, referenceMap)
             | None \<Rightarrow>
                 if inherited_property r then
                   answer_segments_loop segs
                     (answerText @ segment_text segment @ '' ['' @ inherited_text r @ '']'',
                      referenceCounter, referenceMap)
                 else
                   answer_segments_loop segs
                     (answerText @ segment_text segment @ '' ['' @ show_nat referenceCounter @ '']'',
                      referenceCounter + 1, referenceMap @ [(r, referenceCounter)])))"

fun answer_queries_loop ::
  "ConversationQuery list \<Rightarrow> nat \<Rightarrow> string \<times> nat \<times> (string \<times> nat) list
     \<Rightarrow> string \<times> nat \<times> (string \<times> nat) list" where
  "answer_queries_loop [] i st = st"
| "answer_queries_loop (query # queries) i (answerText, referenceCounter, referenceMap) =
     answer_queries_loop queries (i + 1)
       (answer_segments_loop (answer_segments query)
          ((if i > 0
            then answerText @ [nl] @ ''---'' @ [nl, nl] @ ''**Follow-up:** ''
                   @ ConversationQuery.user_query query @ [nl, nl]
            else answerText),
           referenceCounter, referenceMap))"

definition formatAnswer :: "OutputResponse \<Rightarrow> string" where
  "formatAnswer d =
     fst (answer_queries_loop (conversation d) 0 (''# Answer'' @ [nl, nl], 1, [])) @ [nl]"

subsection \<open>The numbered reference list\<close>

fun unique_segments_loop :: "AnswerSegment list \<Rightarrow> string list \<Rightarrow> string list" where
  "unique_segments_loop [] uniqueReferences = uniqueReferences"
| "unique_segments_loop (segment # segs) uniqueReferences =
     (case reference segment of
        None \<Rightarrow> unique_segments_loop segs uniqueReferences
      | Some r \<Rightarrow>
          if r \<noteq> [] \<and> r \<notin> set uniqueReferences
          then unique_segments_loop segs (uniqueReferences @ [r])
          else unique_segments_loop segs uniqueReferences)"

fun unique_queries_loop :: "ConversationQuery list \<Rightarrow> string list \<Rightarrow> string list" where
  "unique_queries_loop [] uniqueReferences = uniqueReferences"
| "unique_queries_loop (query # queries) uniqueReferences =
     unique_queries_loop queries (unique_segments_loop (answer_segments query) uniqueReferences)"

definition uniqueReferences :: "OutputResponse \<Rightarrow> string list" where
  "uniqueReferences d = unique_queries_loop (conversation d) []"

definition reference_line :: "nat \<times> string \<Rightarrow> string" where
  "reference_line p = ''['' @ show_nat (fst p + 1) @ '']: '' @ snd p @ '' '' @ [nl]"

definition formatReferences :: "OutputResponse \<Rightarrow> string" where
  "formatReferences d =
     ''# References'' @ [nl, nl] @ concat (map reference_line (enumerate 0 (uniqueReferences d)))"

definition formatRepoContextIds :: "OutputResponse \<Rightarrow> string" where
  "formatRepoContextIds d =
     ''# Repo Context IDs'' @ [nl, nl]
       @ concat (map (\<lambda>id. ''- '' @ id @ [nl]) (OutputResponse.repo_context_ids d))"

subsection \<open>Code fences\<close>

text \<open>\<^verbatim>\<open>content.match(/`+/g) || []\<close>: the maximal runs of backticks, left to right.\<close>

function backtick_matches :: "string \<Rightarrow> string list" where
  "backtick_matches [] = []"
| "backtick_matches (c # cs) =
     (if c = backtick
      then (c # takeWhile (\<lambda>x. x = backtick) cs) # backtick_matches (dropWhile (\<lambda>x. x = backtick) cs)
      else backtick_matches cs)"
  by pat_completeness auto
termination
  by (relation "measure length") (auto simp: less_Suc_eq_le length_dropWhile_le)

record CodeFence =
  fence_open :: string
  fence_close :: string

definition getCodeFence :: "string \<Rightarrow> CodeFence" where
  "getCodeFence content =
     (let maxBackticks = foldl (\<lambda>m s. max m (length s)) 0 (backtick_matches content);
          fenceLength = max 3 (maxBackticks + 1);
          fence = replicate fenceLength backtick
      in \<lparr>fence_open = fence, fence_close = fence\<rparr>)"

definition endsWith_nl :: "string \<Rightarrow> bool" where
  "endsWith_nl s = (s \<noteq> [] \<and> last s = nl)"

text \<open>The five statements that both file sections use to emit a fenced block.\<close>

definition fenced_block :: "string \<Rightarrow> string" where
  "fenced_block content =
     (let fence = getCodeFence content
      in fence_open fence @ [nl] @ content @ (if \<not> endsWith_nl content then [nl] else [])
           @ fence_close fence @ [nl, nl])"

subsection \<open>Referenced files\<close>

text \<open>\<^verbatim>\<open>Set.prototype.add\<close> on a set kept in insertion order.\<close>

definition set_add :: "'a list \<Rightarrow> 'a \<Rightarrow> 'a list" where
  "set_add xs x = (if x \<in> set xs then xs else xs @ [x])"

definition select_number :: "string list \<Rightarrow> string list \<Rightarrow> int \<Rightarrow> string list" where
  "select_number uniqueRefs includedReferences num =
     (let refIndex = num - 1 in
      if refIndex \<ge> 0 \<and> refIndex < int (length uniqueRefs)
      then set_add includedReferences (uniqueRefs ! nat refIndex)
      else includedReferences)"

definition includedReferences :: "string list \<Rightarrow> bool \<Rightarrow> int list option \<Rightarrow> string list" where
  "includedReferences uniqueRefs includeAll selectedNumbers =
     (if includeAll then foldl set_add [] uniqueRefs
      else (case selectedNumbers of
              Some nums \<Rightarrow> foldl (select_number uniqueRefs) [] nums
            | None \<Rightarrow> []))"

text \<open>A reference string \<open>org/repo: path:range\<close> is cut at its first colon and, behind
  it, at the last one.\<close>

definition parse_reference :: "string \<Rightarrow> (string \<times> string) option" where
  "parse_reference ref =
     (case indexOf_char ref (CHR '':'') of
        None \<Rightarrow> None
      | Some firstColonIndex \<Rightarrow>
          let repoPart = trim (take firstColonIndex ref);
              rest = trim (drop (firstColonIndex + 1) ref) in
          (case lastIndexOf rest '':'' of
             None \<Rightarrow> None
           | Some lastColonIndex \<Rightarrow>
               let pathPart = trim (take lastColonIndex rest);
                   lineRange = trim (drop (lastColonIndex + 1) rest);
                   fileName = repoPart @ ''/'' @ pathPart
               in Some (fileName, lineRange)))"

text \<open>\<open>fileRangesMap\<close>, a \<^verbatim>\<open>Map\<close> from file name to a \<^verbatim>\<open>Set\<close> of line ranges, both in
  insertion order.\<close>

fun add_range :: "(string \<times> string list) list \<Rightarrow> string \<Rightarrow> string \<Rightarrow> (string \<times> string list) list" where
  "add_range [] fileName lineRange = [(fileName, [lineRange])]"
| "add_range ((k, ranges) # m) fileName lineRange =
     (if k = fileName then (k, set_add ranges lineRange) # m
      else (k, ranges) # add_range m fileName lineRange)"

definition group_reference :: "(string \<times> string list) list \<Rightarrow> string \<Rightarrow> (string \<times> string list) list" where
  "group_reference fileRangesMap ref =
     (case parse_reference ref of
        None \<Rightarrow> fileRangesMap
      | Some (fileName, lineRange) \<Rightarrow> add_range fileRangesMap fileName lineRange)"

text \<open>\<^verbatim>\<open>Object.entries\<close> lists the own properties that are array indices first, by
  ascending value, and the others in the order of their creation.\<close>

definition is_digit :: "char \<Rightarrow> bool" where
  "is_digit c = (let n = (of_char c :: nat) in 48 \<le> n \<and> n \<le> 57)"

definition digits_value :: "string \<Rightarrow> int" where
  "digits_value s = foldl (\<lambda>v c. 10 * v + (of_char c - 48)) 0 s"

definition is_array_index :: "string \<Rightarrow> bool" where
  "is_array_index k =
     (k \<noteq> [] \<and> list_all is_digit k \<and> (k = ''0'' \<or> hd k \<noteq> CHR ''0'')
      \<and> digits_value k \<le> 4294967294)"

definition object_entries :: "(string \<times> 'a) list \<Rightarrow> (string \<times> 'a) list" where
  "object_entries obj =
     sort_key (\<lambda>p. digits_value (fst p)) (filter (\<lambda>p. is_array_index (fst p)) obj)
       @ filter (\<lambda>p. \<not> is_array_index (fst p)) obj"

fun render_entries :: "string list \<Rightarrow> ReferencedFile list \<Rightarrow> string" where
  "render_entries includedRanges [] = []"
| "render_entries includedRanges (entry # entries) =
     (if reference_range entry \<notin> set includedRanges then render_entries includedRanges entries
      else ''**['' @ reference_range entry @ '']:**'' @ [nl, nl]
             @ fenced_block (reference_material entry)
             @ render_entries includedRanges entries)"

fun render_files ::
  "(string \<times> string list) list \<Rightarrow> (string \<times> ReferencedFile list) list \<Rightarrow> string" where
  "render_files fileRangesMap [] = []"
| "render_files fileRangesMap ((fileName, entries) # rest) =
     (case map_of fileRangesMap fileName of
        None \<Rightarrow> render_files fileRangesMap rest
      | Some includedRanges \<Rightarrow>
          ''## '' @ fileName @ [nl, nl] @ render_entries includedRanges entries
            @ render_files fileRangesMap rest)"

definition formatReferencedFiles :: "OutputResponse \<Rightarrow> bool \<Rightarrow> int list option \<Rightarrow> string" where
  "formatReferencedFiles d includeAll selectedNumbers =
     (let included = includedReferences (uniqueReferences d) includeAll selectedNumbers;
          fileRangesMap = foldl group_reference [] included
      in ''# Referenced Files'' @ [nl, nl]
           @ render_files fileRangesMap (object_entries (referenced_files d)))"

subsection \<open>Full-context files\<close>

definition context_block ::
  "bool \<Rightarrow> string list option \<Rightarrow> (string \<times> (int \<times> int)) list option \<Rightarrow> FullContextItem \<Rightarrow> string" where
  "context_block includeAll selectedFiles fileRanges context =
     (let fileName = file_name context;
          shouldShowFile = (includeAll \<or> (case selectedFiles of
                                             Some files \<Rightarrow> fileName \<in> set files
                                           | None \<Rightarrow> False)) in
      if \<not> shouldShowFile then []
      else
        let lines = split_char nl (file_text context);
            totalLines = int (length lines);
            (rangeStart, rangeEnd) =
              (case fileRanges of
                 None \<Rightarrow> (0, totalLines - 1)
               | Some m \<Rightarrow>
                   (case map_of m fileName of
                      None \<Rightarrow> (0, totalLines - 1)
                    | Some (start, stop) \<Rightarrow> (start, min stop (totalLines - 1))));
            content = join_with [nl] (js_slice lines rangeStart (rangeEnd + 1))
        in ''## '' @ fileName @ '' ['' @ show_int rangeStart @ ''-'' @ show_int rangeEnd @ '']''
             @ [nl, nl] @ fenced_block content)"

definition formatFullContext ::
  "OutputResponse \<Rightarrow> bool \<Rightarrow> string list option \<Rightarrow> (string \<times> (int \<times> int)) list option \<Rightarrow> string" where
  "formatFullContext d includeAll selectedFiles fileRanges =
     ''# Full Context Files'' @ [nl, nl]
       @ concat (map (context_block includeAll selectedFiles fileRanges) (full_context d))"

definition formatFullContextNamesOnly :: "OutputResponse \<Rightarrow> string" where
  "formatFullContextNamesOnly d =
     ''# Full Context Files'' @ [nl, nl]
       @ concat (map (\<lambda>context.
            ''## '' @ file_name context @ '' [0-''
              @ show_int (int (length (split_char nl (file_text context))) - 1) @ '']'' @ [nl, nl])
          (full_context d))"

subsection \<open>generateMarkdown\<close>

definition generateMarkdown :: "OutputResponse \<Rightarrow> MarkdownOptions \<Rightarrow> string" where
  "generateMarkdown d options =
     trim
       (formatQueryId d @ [nl]
        @ (if includeAnswer options then formatAnswer d @ [nl] else [])
        @ formatRepoContextIds d @ [nl]
        @ (if includeReferencesList options then formatReferences d @ [nl] else [])
        @ (if referencesAll options \<or> referencesNumbers options \<noteq> None
           then formatReferencedFiles d (referencesAll options) (referencesNumbers options) @ [nl]
           else [])
        @ (if includeAnswer options \<and> includeReferencesList options
           then formatFullContextNamesOnly d
           else if contextAll options \<or> contextFiles options \<noteq> None
           then formatFullContext d (contextAll options) (contextFiles options) (contextRanges options)
           else []))"

subsection \<open>Vocabulary for the properties of the renderer\<close>

text \<open>The reference strings of a document in the order of the answer, those that count
  (a segment's reference that is present and not empty), and a list cut down to the
  first occurrence of each of its elements.\<close>

definition cited_references :: "OutputResponse \<Rightarrow> string list" where
  "cited_references d =
     concat (map (\<lambda>query. concat (map (\<lambda>segment. case reference segment of
                                                      None \<Rightarrow> []
                                                    | Some r \<Rightarrow> if r = [] then [] else [r])
                                        (answer_segments query)))
                 (conversation d))"

fun first_seen :: "'a list \<Rightarrow> 'a list" where
  "first_seen [] = []"
| "first_seen (x # xs) = x # first_seen (filter (\<lambda>y. y \<noteq> x) xs)"

definition in_bounds :: "OutputResponse \<Rightarrow> int \<Rightarrow> bool" where
  "in_bounds d num = (1 \<le> num \<and> num \<le> int (length (uniqueReferences d)))"


text \<open>The ranges a file has in \<open>fileRangesMap\<close>, and the property that every file of
  the map has one at least.\<close>

definition ranges_of :: "(string \<times> string list) list \<Rightarrow> string \<Rightarrow> string set" where
  "ranges_of m f = (case map_of m f of None \<Rightarrow> {} | Some rs \<Rightarrow> set rs)"

definition ranges_inhabited :: "(string \<times> string list) list \<Rightarrow> bool" where
  "ranges_inhabited m \<longleftrightarrow> (\<forall>f rs. map_of m f = Some rs \<longrightarrow> rs \<noteq> [])"

text \<open>A document of two turns for the worked examples: three distinct references, the
  first cited twice, and a snippet that contains backticks.\<close>

definition example_document :: OutputResponse where
  "example_document =
     \<lparr>query_id = ''q_1'',
      conversation =
        [\<lparr>ConversationQuery.user_query = ''How does it work?'',
          answer_segments =
            [\<lparr>segment_text = ''Looking at '', reference = Some ''a/b: x.py:10-12''\<rparr>,
             \<lparr>segment_text = ''and '', reference = Some ''a/b: y.py:1-2''\<rparr>,
             \<lparr>segment_text = ''again '', reference = Some ''a/b: x.py:10-12''\<rparr>,
             \<lparr>segment_text = '' next.'', reference = None\<rparr>]\<rparr>,
         \<lparr>ConversationQuery.user_query = ''And then?'',
          answer_segments =
            [\<lparr>segment_text = ''See '', reference = Some ''a/b: z.py:3-4''\<rparr>]\<rparr>],
      repo_context_ids = [''ctx-1''],
      referenced_files =
        [(''a/b/x.py'', [\<lparr>reference_range = ''10-12'', reference_material = ''print(`x`)''\<rparr>]),
         (''a/b/y.py'', [\<lparr>reference_range = ''1-2'', reference_material = ''```js''\<rparr>])],
      full_context = [\<lparr>file_name = ''a/b/x.py'', file_text = ''l1''\<rparr>]\<rparr>"

definition example_options :: MarkdownOptions where
  "example_options =
     \<lparr>includeAnswer = False, includeReferencesList = False, referencesAll = False,
      referencesNumbers = None, contextAll = False, contextFiles = None, contextRanges = None\<rparr>"

text \<open>What the loop over the full-context files computes for one file: whether the file
  is shown, the range printed in its heading, and the lines it shows; and the map from
  file names to selected ranges that the loop over the referenced files consults.\<close>

definition shown_file :: "bool \<Rightarrow> string list option \<Rightarrow> FullContextItem \<Rightarrow> bool" where
  "shown_file includeAll selectedFiles context =
     (includeAll \<or> (case selectedFiles of
                      Some files \<Rightarrow> file_name context \<in> set files
                    | None \<Rightarrow> False))"

definition shown_range ::
  "(string \<times> (int \<times> int)) list option \<Rightarrow> FullContextItem \<Rightarrow> int \<times> int" where
  "shown_range fileRanges context =
     (let totalLines = int (length (split_char nl (file_text context))) in
      case fileRanges of
        None \<Rightarrow> (0, totalLines - 1)
      | Some m \<Rightarrow>
          (case map_of m (file_name context) of
             None \<Rightarrow> (0, totalLines - 1)
           | Some (start, stop) \<Rightarrow> (start, min stop (totalLines - 1))))"

definition shown_content :: "(string \<times> (int \<times> int)) list option \<Rightarrow> FullContextItem \<Rightarrow> string" where
  "shown_content fileRanges context =
     join_with [nl]
       (js_slice (split_char nl (file_text context))
          (fst (shown_range fileRanges context)) (snd (shown_range fileRanges context) + 1))"

definition selected_ranges :: "OutputResponse \<Rightarrow> bool \<Rightarrow> int list option \<Rightarrow> (string \<times> string list) list" where
  "selected_ranges d includeAll selectedNumbers =
     foldl group_reference [] (includedReferences (uniqueReferences d) includeAll selectedNumbers)"

text \<open>A full-context file of three lines, the second with a run of three backticks.\<close>

definition example_file :: FullContextItem where
  "example_file = \<lparr>file_name = ''a/b/x.py'', file_text = ''x'' @ [nl] @ ''a```b'' @ [nl] @ ''c''\<rparr>"

section \<open>The polling loop (automation/deepwiki-automator)\<close>





subsection \<open>The schedule\<close>




subsection \<open>What a poll hands back\<close>







subsection \<open>One check\<close>










subsection \<open>The loop\<close>





section \<open>The question tool (tools/wiki-question)\<close>

subsection \<open>The remaining validators\<close>

text \<open>The selection holds integers, so the source's tests of the element type hold; what
  remains is the test for an empty array and for a number below 1.\<close>

fun validate_numbers_from :: "nat \<Rightarrow> int list \<Rightarrow> js_error + unit" where
  "validate_numbers_from i [] = Inr ()"
| "validate_numbers_from i (refNum # rest) =
     (if refNum < 1 then
        Inl (Error (''Reference number at index '' @ show_nat i @ '' must be positive, got ''
                    @ show_int refNum))
      else validate_numbers_from (i + 1) rest)"

definition validateReferencesNumbers :: "int list \<Rightarrow> js_error + unit" where
  "validateReferencesNumbers nums =
     (if length nums = 0 then Inl (Error ''References numbers array cannot be empty'')
      else validate_numbers_from 0 nums)"

fun validate_files_from :: "nat \<Rightarrow> string list \<Rightarrow> js_error + unit" where
  "validate_files_from i [] = Inr ()"
| "validate_files_from i (file # rest) =
     (if length (trim file) = 0 then
        Inl (Error (''Context file at index '' @ show_nat i @ '' cannot be empty''))
      else validate_files_from (i + 1) rest)"

definition validateContextFiles :: "string list \<Rightarrow> js_error + unit" where
  "validateContextFiles files =
     (if length files = 0 then Inl (Error ''Context files array cannot be empty'')
      else validate_files_from 0 files)"

fun validate_ranges :: "(string \<times> (int \<times> int)) list \<Rightarrow> js_error + unit" where
  "validate_ranges [] = Inr ()"
| "validate_ranges ((file, (start, stop)) # rest) =
     (if length (trim file) = 0 then Inl (Error ''File path in contextRanges cannot be empty'')
      else if start < 1 then
        Inl (Error (''Start line for file '' @ [dq] @ file @ [dq] @ '' must be positive, got ''
                    @ show_int start))
      else if stop < start then
        Inl (Error (''End line ('' @ show_int stop @ '') for file '' @ [dq] @ file @ [dq]
                    @ '' must be greater than or equal to start line ('' @ show_int start @ '')''))
      else validate_ranges rest)"

text \<open>The \<^verbatim>\<open>Map\<close> is turned into an object first, whose entries are then walked.\<close>

definition validateContextRanges :: "(string \<times> (int \<times> int)) list \<Rightarrow> js_error + unit" where
  "validateContextRanges ranges =
     (if length ranges = 0 then Inl (Error ''Context ranges object cannot be empty'')
      else validate_ranges (object_entries ranges))"

text \<open>\<^verbatim>\<open>toLowerCase\<close> on the code units below 256.\<close>

definition to_lower :: "char \<Rightarrow> char" where
  "to_lower c =
     (let n = (of_char c :: nat) in
      if (65 \<le> n \<and> n \<le> 90) \<or> (192 \<le> n \<and> n \<le> 222 \<and> n \<noteq> 215) then char_of (n + 32) else c)"

definition validateSaveToFile :: "string \<Rightarrow> js_error + unit" where
  "validateSaveToFile saveToFile =
     (let normalized = map to_lower saveToFile in
      if normalized \<noteq> ''save-only'' \<and> normalized \<noteq> ''save-and-show'' then
        Inl (Error (''saveToFile must be either '' @ [dq] @ ''save-only'' @ [dq] @ '' or ''
                    @ [dq] @ ''save-and-show'' @ [dq] @ '', got '' @ [dq] @ saveToFile @ [dq]))
      else Inr ())"

subsection \<open>Parameters, environment and effects\<close>

text \<open>The parameters after destructuring, the defaults filled in; an absent optional
  parameter is \<open>None\<close>.\<close>

record WikiQuestionToolParams =
  p_repo :: string
  p_question :: "string option"
  p_queryId :: "string option"
  p_useDeepResearch :: bool
  p_goDeeper :: bool
  p_followUpQuestion :: "string option"
  p_includeFullConversation :: bool
  p_options :: MarkdownOptions
  p_saveToFile :: "string option"
  p_saveLocation :: "string option"

text \<open>The result object of an automator method; fields carry the prefix \<open>dw_\<close>.\<close>

record DeepwikiResponse =
  dw_success :: bool
  dw_answer :: "string option"
  dw_references :: "Reference list option"
  dw_stats :: "(string \<times> int) list option"
  dw_error :: "string option"
  dw_rawResponse :: "raw_response option"
  dw_queryId :: "string option"

record SaveRequest =
  s_transformedJson :: OutputResponse
  s_saveToFile :: string
  s_saveLocation :: "string option"
  s_queryId :: string
  s_repo :: string
  s_question :: "string option"
  s_goDeeper :: bool
  s_followUpQuestion :: "string option"
  s_markdown :: string

text \<open>
  What the tool calls and does not own: the cache (a read yields the cached document or
  nothing; a write may throw), the three methods of the browser automator (each catches
  its own errors and returns a result object), the wall clock, and \<open>saveResponseToFile\<close>.
\<close>

record tool_env =
  cache_getJSON :: "string \<Rightarrow> string \<Rightarrow> string \<Rightarrow> OutputResponse option"
  cache_setJSON :: "string \<Rightarrow> string \<Rightarrow> OutputResponse \<Rightarrow> string \<Rightarrow> js_error option"
  automator_askQuestion :: "string \<Rightarrow> string \<Rightarrow> bool \<Rightarrow> DeepwikiResponse"
  automator_goDeeper :: "string \<Rightarrow> DeepwikiResponse"
  automator_sendFollowUp :: "string \<Rightarrow> string \<Rightarrow> bool \<Rightarrow> DeepwikiResponse"
  saveResponseToFile :: "SaveRequest \<Rightarrow> js_error + string"
  date_now :: string

datatype effect =
    CacheRead string string string
  | CacheWrite string string OutputResponse string
  | BrowserAutomation string
  | FileSave

text \<open>The \<^verbatim>\<open>throw\<close> sites of the tool, and the error each one throws.\<close>

datatype tool_failure =
    InvalidParameter js_error
  | QueryIdRequired string
  | NoCachedResponse string
  | QuestionRequired
  | AutomationFailed string
  | TransformFailed js_error
  | CacheWriteFailed js_error
  | SaveFailed js_error

definition thrown :: "tool_failure \<Rightarrow> js_error" where
  "thrown f =
     (case f of
        InvalidParameter e \<Rightarrow> e
      | QueryIdRequired message \<Rightarrow> Error message
      | NoCachedResponse paramQueryId \<Rightarrow>
          Error (''No cached response found for query ID: '' @ paramQueryId)
      | QuestionRequired \<Rightarrow> Error ''Question is required when queryId is not provided''
      | AutomationFailed message \<Rightarrow> Error message
      | TransformFailed e \<Rightarrow> e
      | CacheWriteFailed e \<Rightarrow> e
      | SaveFailed e \<Rightarrow> e)"

definition truthy :: "string option \<Rightarrow> bool" where
  "truthy s = (case s of None \<Rightarrow> False | Some x \<Rightarrow> x \<noteq> [])"

definition or_empty :: "string option \<Rightarrow> string" where
  "or_empty s = (case s of None \<Rightarrow> [] | Some x \<Rightarrow> x)"

definition template_text :: "string option \<Rightarrow> string" where
  "template_text s = (case s of None \<Rightarrow> ''undefined'' | Some x \<Rightarrow> x)"

subsection \<open>The three handlers\<close>

definition default_rawResponse :: "string \<Rightarrow> raw_response" where
  "default_rawResponse userQuery =
     Single \<lparr>ApiQuery.user_query = userQuery, use_knowledge = True, engine_id = [],
             ApiQuery.repo_context_ids = [], response = [], error = None, state = ''done'',
             redis_stream = None\<rparr>"

definition inputResponse_of :: "tool_env \<Rightarrow> DeepwikiResponse \<Rightarrow> string \<Rightarrow> InputResponse" where
  "inputResponse_of env result userQuery =
     \<lparr>timestamp = date_now env,
      success = dw_success result,
      queryId = or_empty (dw_queryId result),
      answer = or_empty (dw_answer result),
      references = (case dw_references result of None \<Rightarrow> [] | Some refs \<Rightarrow> refs),
      stats = (case dw_stats result of None \<Rightarrow> [] | Some s \<Rightarrow> s),
      rawResponse = (case dw_rawResponse result of
                       None \<Rightarrow> default_rawResponse userQuery
                     | Some raw \<Rightarrow> raw)\<rparr>"

definition cache_store ::
  "tool_env \<Rightarrow> string \<Rightarrow> OutputResponse \<Rightarrow> string \<Rightarrow> string
     \<Rightarrow> effect list \<times> (tool_failure + OutputResponse \<times> string)" where
  "cache_store env identifier transformedJson repoName returnedId =
     ([CacheWrite ''question'' identifier transformedJson repoName],
      (case cache_setJSON env ''question'' identifier transformedJson repoName of
         Some e \<Rightarrow> Inl (CacheWriteFailed e)
       | None \<Rightarrow> Inr (transformedJson, returnedId)))"

definition handleGoDeeperRequest ::
  "tool_env \<Rightarrow> string \<Rightarrow> effect list \<times> (tool_failure + OutputResponse \<times> string)" where
  "handleGoDeeperRequest env paramQueryId =
     (let result = automator_goDeeper env paramQueryId in
      if \<not> dw_success result then
        ([BrowserAutomation ''goDeeper''],
         Inl (AutomationFailed (''Failed to execute Go Deeper: '' @ template_text (dw_error result))))
      else
        (case transformResponse
                (inputResponse_of env result (''Go Deeper from '' @ paramQueryId)) of
           Inl e \<Rightarrow> ([BrowserAutomation ''goDeeper''], Inl (TransformFailed e))
         | Inr transformedJson \<Rightarrow>
             let newQueryId = or_empty (dw_queryId result) in
             if newQueryId \<noteq> [] then
               (case cache_store env newQueryId transformedJson
                       (case split_char (CHR ''_'') newQueryId of [] \<Rightarrow> [] | part # _ \<Rightarrow> part)
                       newQueryId of
                  (effects, r) \<Rightarrow> (BrowserAutomation ''goDeeper'' # effects, r))
             else ([BrowserAutomation ''goDeeper''], Inr (transformedJson, newQueryId))))"

definition handleFollowUpRequest ::
  "tool_env \<Rightarrow> string \<Rightarrow> string \<Rightarrow> bool \<Rightarrow> string
     \<Rightarrow> effect list \<times> (tool_failure + OutputResponse \<times> string)" where
  "handleFollowUpRequest env paramQueryId followUp useDeep repoName =
     (let result = automator_sendFollowUp env paramQueryId followUp useDeep in
      if \<not> dw_success result then
        ([BrowserAutomation ''sendFollowUp''],
         Inl (AutomationFailed (''Failed to send follow-up: '' @ template_text (dw_error result))))
      else
        (case transformResponse (inputResponse_of env result (''Follow-up: '' @ followUp)) of
           Inl e \<Rightarrow> ([BrowserAutomation ''sendFollowUp''], Inl (TransformFailed e))
         | Inr transformedJson \<Rightarrow>
             (case cache_store env paramQueryId transformedJson repoName paramQueryId of
                (effects, r) \<Rightarrow> (BrowserAutomation ''sendFollowUp'' # effects, r))))"

definition tempCacheKey :: "string \<Rightarrow> string \<Rightarrow> bool \<Rightarrow> string" where
  "tempCacheKey repoName questionText useDeep =
     ''question_'' @ repoName @ ''_'' @ questionText @ ''_''
       @ (if useDeep then ''deep'' else ''regular'')"

definition handleNewQuestion ::
  "tool_env \<Rightarrow> string \<Rightarrow> string \<Rightarrow> bool \<Rightarrow> effect list \<times> (tool_failure + OutputResponse \<times> string)" where
  "handleNewQuestion env repoName questionText useDeep =
     (let result = automator_askQuestion env repoName questionText useDeep in
      if \<not> dw_success result then
        ([BrowserAutomation ''askQuestion''],
         Inl (AutomationFailed (''Failed to get answer: '' @ template_text (dw_error result))))
      else
        (case transformResponse (inputResponse_of env result questionText) of
           Inl e \<Rightarrow> ([BrowserAutomation ''askQuestion''], Inl (TransformFailed e))
         | Inr transformedJson \<Rightarrow>
             let responseQueryId = or_empty (dw_queryId result);
                 identifier = (if responseQueryId \<noteq> [] then responseQueryId
                               else tempCacheKey repoName questionText useDeep) in
             (case cache_store env identifier transformedJson repoName identifier of
                (effects, r) \<Rightarrow> (BrowserAutomation ''askQuestion'' # effects, r))))"

definition filterConversationForFollowUp :: "OutputResponse \<Rightarrow> bool \<Rightarrow> OutputResponse" where
  "filterConversationForFollowUp transformedJson includeFull =
     (if includeFull then transformedJson
      else if length (conversation transformedJson) > 1
      then transformedJson\<lparr>conversation := [last (conversation transformedJson)]\<rparr>
      else transformedJson)"

subsection \<open>wikiQuestionTool\<close>

text \<open>The validators run in the order of the source; the first one that throws ends the
  call.\<close>

definition validate_params :: "WikiQuestionToolParams \<Rightarrow> js_error + unit" where
  "validate_params params =
     (case validateRepo (p_repo params) of Inl e \<Rightarrow> Inl e | Inr _ \<Rightarrow>
      case (if truthy (p_question params) then validateQuestion (or_empty (p_question params))
            else Inr ()) of Inl e \<Rightarrow> Inl e | Inr _ \<Rightarrow>
      case (if truthy (p_queryId params) then validateQueryId (or_empty (p_queryId params))
            else Inr ()) of Inl e \<Rightarrow> Inl e | Inr _ \<Rightarrow>
      case (if truthy (p_followUpQuestion params)
            then validateQuestion (or_empty (p_followUpQuestion params))
            else Inr ()) of Inl e \<Rightarrow> Inl e | Inr _ \<Rightarrow>
      case (case referencesNumbers (p_options params) of
              None \<Rightarrow> Inr () | Some nums \<Rightarrow> validateReferencesNumbers nums) of
        Inl e \<Rightarrow> Inl e | Inr _ \<Rightarrow>
      case (case contextFiles (p_options params) of
              None \<Rightarrow> Inr () | Some files \<Rightarrow> validateContextFiles files) of
        Inl e \<Rightarrow> Inl e | Inr _ \<Rightarrow>
      case (case contextRanges (p_options params) of
              None \<Rightarrow> Inr () | Some ranges \<Rightarrow> validateContextRanges ranges) of
        Inl e \<Rightarrow> Inl e | Inr _ \<Rightarrow>
      (if truthy (p_saveToFile params) then validateSaveToFile (or_empty (p_saveToFile params))
       else Inr ()))"

text \<open>The routing: which of the four ways yields the document and the query identifier.\<close>

definition route_request ::
  "tool_env \<Rightarrow> WikiQuestionToolParams \<Rightarrow> effect list \<times> (tool_failure + OutputResponse \<times> string)" where
  "route_request env params =
     (if p_goDeeper params then
        (if \<not> truthy (p_queryId params)
         then ([], Inl (QueryIdRequired ''Query ID is required for Go Deeper functionality''))
         else handleGoDeeperRequest env (or_empty (p_queryId params)))
      else if truthy (p_followUpQuestion params) then
        (if \<not> truthy (p_queryId params)
         then ([], Inl (QueryIdRequired ''Query ID is required for follow-up questions''))
         else handleFollowUpRequest env (or_empty (p_queryId params))
                (or_empty (p_followUpQuestion params)) (p_useDeepResearch params) (p_repo params))
      else if truthy (p_queryId params) then
        (let paramQueryId = or_empty (p_queryId params) in
         ([CacheRead ''question'' paramQueryId (p_repo params)],
          (case cache_getJSON env ''question'' paramQueryId (p_repo params) of
             None \<Rightarrow> Inl (NoCachedResponse paramQueryId)
           | Some transformedJson \<Rightarrow> Inr (transformedJson, paramQueryId))))
      else
        (if \<not> truthy (p_question params) then ([], Inl QuestionRequired)
         else
           let questionText = or_empty (p_question params);
               cacheKey = tempCacheKey (p_repo params) questionText (p_useDeepResearch params) in
           (case cache_getJSON env ''question'' cacheKey (p_repo params) of
              None \<Rightarrow>
                (case handleNewQuestion env (p_repo params) questionText (p_useDeepResearch params) of
                   (effects, r) \<Rightarrow> (CacheRead ''question'' cacheKey (p_repo params) # effects, r))
            | Some transformedJson \<Rightarrow>
                ([CacheRead ''question'' cacheKey (p_repo params)],
                 Inr (transformedJson, cacheKey)))))"

text \<open>The markdown of a document that was obtained, before any saving.\<close>

definition render_markdown :: "WikiQuestionToolParams \<Rightarrow> OutputResponse \<Rightarrow> string" where
  "render_markdown params transformedJson =
     (let filteredResponse =
            (if truthy (p_followUpQuestion params)
             then filterConversationForFollowUp transformedJson (p_includeFullConversation params)
             else transformedJson);
          markdown = generateMarkdown filteredResponse (p_options params) in
      if p_useDeepResearch params
         \<and> (truthy (p_followUpQuestion params) \<or> truthy (p_question params))
      then ''**Deep Research Mode Used**'' @ [nl, nl] @ markdown
      else markdown)"

definition finish_request ::
  "tool_env \<Rightarrow> WikiQuestionToolParams \<Rightarrow> OutputResponse \<Rightarrow> string
     \<Rightarrow> effect list \<times> (tool_failure + string)" where
  "finish_request env params transformedJson actualQueryId =
     (let markdown = render_markdown params transformedJson;
          mode = map to_lower (or_empty (p_saveToFile params)) in
      if truthy (p_saveToFile params) \<and> (mode = ''save-only'' \<or> mode = ''save-and-show'') then
        (let savedId = (if actualQueryId \<noteq> [] then actualQueryId
                        else if query_id transformedJson \<noteq> [] then query_id transformedJson
                        else ''unknown'') in
         ([FileSave],
          (case saveResponseToFile env
                  \<lparr>s_transformedJson = transformedJson,
                   s_saveToFile = or_empty (p_saveToFile params),
                   s_saveLocation = p_saveLocation params,
                   s_queryId = savedId, s_repo = p_repo params,
                   s_question = p_question params, s_goDeeper = p_goDeeper params,
                   s_followUpQuestion = p_followUpQuestion params,
                   s_markdown = markdown\<rparr> of
             Inl e \<Rightarrow> Inl (SaveFailed e)
           | Inr filePath \<Rightarrow>
               Inr (''Query ID: '' @ savedId @ [nl] @ ''Output saved to: '' @ filePath
                    @ (if mode = ''save-only'' then []
                       else [nl, nl] @ ''---'' @ [nl, nl] @ markdown)))))
      else ([], Inr markdown))"

definition wikiQuestionTool ::
  "tool_env \<Rightarrow> WikiQuestionToolParams \<Rightarrow> effect list \<times> (tool_failure + string)" where
  "wikiQuestionTool env params =
     (case validate_params params of
        Inl e \<Rightarrow> ([], Inl (InvalidParameter e))
      | Inr _ \<Rightarrow>
          (case route_request env params of
             (effects, Inl f) \<Rightarrow> (effects, Inl f)
           | (effects, Inr (transformedJson, actualQueryId)) \<Rightarrow>
               (case finish_request env params transformedJson actualQueryId of
                  (effects', r) \<Rightarrow> (effects @ effects', r))))"

text \<open>The calls the cached-lookup claim is about, and an environment and a call for the
  worked example.\<close>

definition lookup_call :: "WikiQuestionToolParams \<Rightarrow> bool" where
  "lookup_call params \<longleftrightarrow>
     truthy (p_queryId params) \<and> \<not> p_goDeeper params \<and> \<not> truthy (p_followUpQuestion params)"

definition is_automation :: "effect \<Rightarrow> bool" where
  "is_automation e = (case e of BrowserAutomation m \<Rightarrow> True | _ \<Rightarrow> False)"

definition failed_response :: DeepwikiResponse where
  "failed_response =
     \<lparr>dw_success = False, dw_answer = None, dw_references = None, dw_stats = None,
      dw_error = Some ''browser unavailable'', dw_rawResponse = None, dw_queryId = None\<rparr>"

definition example_env :: "(string \<Rightarrow> OutputResponse option) \<Rightarrow> tool_env" where
  "example_env cached =
     \<lparr>cache_getJSON = (\<lambda>t identifier r. cached identifier),
      cache_setJSON = (\<lambda>t identifier d r. None),
      automator_askQuestion = (\<lambda>r q deep. failed_response),
      automator_goDeeper = (\<lambda>q. failed_response),
      automator_sendFollowUp = (\<lambda>q f deep. failed_response),
      saveResponseToFile = (\<lambda>request. Inr ''/out/answer.md''),
      date_now = ''2025-01-01T00:00:00.000Z''\<rparr>"

definition example_params :: "string \<Rightarrow> string \<Rightarrow> WikiQuestionToolParams" where
  "example_params repoName identifier =
     \<lparr>p_repo = repoName, p_question = None, p_queryId = Some identifier,
      p_useDeepResearch = False, p_goDeeper = False, p_followUpQuestion = None,
      p_includeFullConversation = False,
      p_options = example_options\<lparr>referencesNumbers := Some [2]\<rparr>,
      p_saveToFile = None, p_saveLocation = None\<rparr>"

section \<open>Properties of the validators\<close>

lemma split_char_ne: "split_char sep s \<noteq> []"
  by (induction s) (auto split: list.splits)

lemma split_char_join: "join_with [sep] (split_char sep s) = s"
proof (induction s)
  case Nil
  then show ?case by simp
next
  case (Cons c cs)
  show ?case
  proof (cases "c = sep")
    case True
    with Cons split_char_ne[of sep cs] show ?thesis
      by (cases "split_char sep cs") auto
  next
    case False
    with Cons split_char_ne[of sep cs] show ?thesis
      by (cases "split_char sep cs"; cases "tl (split_char sep cs)") auto
  qed
qed

lemma split_char_no_sep: "sep \<notin> set s \<Longrightarrow> split_char sep s = [s]"
  by (induction s) auto

lemma split_char_append: "sep \<notin> set a \<Longrightarrow> split_char sep (a @ sep # r) = a # split_char sep r"
  by (induction a) auto

lemma not_alnum_special [simp]:
  "\<not> is_alnum (CHR ''-'')" "\<not> is_alnum (CHR ''/'')"
  by (simp_all add: is_alnum_def)

lemma validPattern_repo_iff: "validPattern_repo s \<longleftrightarrow> segment_wellformed s"
proof (cases s)
  case Nil
  then show ?thesis by (simp add: validPattern_repo_def segment_wellformed_def)
next
  case (Cons c cs)
  show ?thesis
  proof (cases "cs = []")
    case True
    with Cons show ?thesis
      by (auto simp: validPattern_repo_def segment_wellformed_def repo_char_def)
  next
    case False
    then have cs: "cs = butlast cs @ [last cs]" by simp
    have "list_all repo_char cs \<longleftrightarrow> list_all repo_char (butlast cs) \<and> repo_char (last cs)"
      by (subst cs) (simp del: append_butlast_last_id)
    with Cons False show ?thesis
      by (auto simp: validPattern_repo_def segment_wellformed_def repo_char_def)
  qed
qed

lemma segment_no_slash: "segment_wellformed x \<Longrightarrow> CHR ''/'' \<notin> set x"
  by (auto simp: segment_wellformed_def list_all_iff repo_char_def)

lemma trim_Nil [simp]: "trim [] = []"
  by (simp add: trim_def)

lemma validateRepo_ok_iff: "validateRepo repo = Inr () \<longleftrightarrow> owner_repo_form (trim repo)"
proof
  assume ok: "validateRepo repo = Inr ()"
  then obtain owner name where sp: "split_char (CHR ''/'') (trim repo) = [owner, name]"
    and v: "validPattern_repo owner" "validPattern_repo name"
    by (auto simp: validateRepo_def Let_def split: if_splits list.splits)
  have "trim repo = join_with ''/'' (split_char (CHR ''/'') (trim repo))"
    by (simp add: split_char_join)
  with sp have "trim repo = owner @ ''/'' @ name" by simp
  with v show "owner_repo_form (trim repo)"
    unfolding owner_repo_form_def validPattern_repo_iff by blast
next
  assume "owner_repo_form (trim repo)"
  then obtain owner name where t: "trim repo = owner @ ''/'' @ name"
    and w: "segment_wellformed owner" "segment_wellformed name"
    unfolding owner_repo_form_def by blast
  from w have ns: "CHR ''/'' \<notin> set owner" "CHR ''/'' \<notin> set name"
    by (simp_all add: segment_no_slash)
  then have sp: "split_char (CHR ''/'') (trim repo) = [owner, name]"
    using t by (simp add: split_char_append split_char_no_sep)
  from t have ne: "repo \<noteq> []" by auto
  from w have ne2: "owner \<noteq> []" "name \<noteq> []" by (auto simp: segment_wellformed_def)
  from w have v: "validPattern_repo owner" "validPattern_repo name"
    by (simp_all add: validPattern_repo_iff)
  show "validateRepo repo = Inr ()"
    using sp ne ne2 v t by (simp add: validateRepo_def Let_def)
qed

lemma throws_iff: "(\<exists>e. (r :: js_error + unit) = Inl e) \<longleftrightarrow> r \<noteq> Inr ()"
  by (cases r) auto

lemma validateQuestion_ok_iff:
  "validateQuestion q = Inr () \<longleftrightarrow> trim q \<noteq> [] \<and> length (trim q) \<le> 10000"
  by (auto simp: validateQuestion_def Let_def)

lemma validateQueryId_ok_iff:
  "validateQueryId q = Inr () \<longleftrightarrow> trim q \<noteq> [] \<and> list_all queryId_char (trim q)"
  by (auto simp: validateQueryId_def Let_def validPattern_queryId_def)

text \<open>
  Claim C8, as amended. Each validator throws exactly on malformed input, where all three
  look at the argument after \<^verbatim>\<open>trim()\<close>: \<open>validateRepo\<close> throws iff the trimmed
  repository string is not of the form \<open>owner/repo\<close> with well-formed segments;
  \<open>validateQuestion\<close> throws iff the trimmed question is empty or longer than 10,000
  characters; \<open>validateQueryId\<close> throws iff the trimmed identifier is empty or has a
  character outside alphanumerics, hyphen and underscore.
\<close>

theorem validators_throw_exactly:
  "((\<exists>e. validateRepo r = Inl e) \<longleftrightarrow> \<not> owner_repo_form (trim r))
   \<and> ((\<exists>e. validateQuestion q = Inl e) \<longleftrightarrow> (trim q = [] \<or> length (trim q) > 10000))
   \<and> ((\<exists>e. validateQueryId i = Inl e) \<longleftrightarrow>
        (trim i = [] \<or> (\<exists>c. c \<in> set (trim i) \<and> \<not> queryId_char c)))"
  by (auto simp: throws_iff validateRepo_ok_iff validateQuestion_ok_iff validateQueryId_ok_iff list_all_iff)

text \<open>
  Read on the repository string as passed, the first equivalence fails: a string with
  surrounding white space is not of the form \<open>owner/repo\<close>, and \<open>validateRepo\<close> accepts it.
\<close>

lemma owner_repo_form_space: "\<not> owner_repo_form '' a/b''"
proof
  assume "owner_repo_form '' a/b''"
  then obtain owner name where t: "'' a/b'' = owner @ ''/'' @ name"
    and w: "segment_wellformed owner" "segment_wellformed name"
    unfolding owner_repo_form_def by blast
  from w(1) have "owner \<noteq> []" by (simp add: segment_wellformed_def)
  with t have "hd owner = CHR '' ''" by (cases owner) auto
  moreover from w(1) have "repo_char (hd owner)"
    by (cases owner) (auto simp: segment_wellformed_def)
  ultimately show False by (simp add: repo_char_def is_alnum_def)
qed

theorem validateRepo_untrimmed_counterexample:
  "\<not> ((\<exists>e. validateRepo '' a/b'' = Inl e) \<longleftrightarrow> \<not> owner_repo_form '' a/b'')"
  using owner_repo_form_space
  by (simp add: validateRepo_def trim_def js_whitespace_def validPattern_repo_def is_alnum_def)

theorem validators_throw_exactly_witness:
  "validateRepo ''facebook/react'' = Inr () \<and> owner_repo_form (trim ''facebook/react'')
   \<and> (\<exists>e. validateRepo ''-a/b'' = Inl e) \<and> \<not> owner_repo_form (trim ''-a/b'')
   \<and> (\<exists>e. validateQuestion ''   '' = Inl e) \<and> trim ''   '' = []
   \<and> (\<exists>e. validateQueryId ''a b'' = Inl e) \<and> \<not> queryId_char (CHR '' '')"
  using validators_throw_exactly[of "''facebook/react''" "''   ''" "''a b''"]
     validators_throw_exactly[of "''-a/b''" "''   ''" "''a b''"]
  by (simp add: validateRepo_def validateQuestion_def validateQueryId_def trim_def js_whitespace_def validPattern_repo_def is_alnum_def
      validPattern_queryId_def queryId_char_def repo_char_def)

section \<open>Properties of the response assembler\<close>

lemma segments_loop_total:
  "\<forall>item\<in>set items. \<not> malformed_citation item \<Longrightarrow> \<exists>out. segments_loop items cur segs = Inr out"
proof (induction items arbitrary: cur segs)
  case Nil
  then show ?case by simp
next
  case (Cons item items)
  then have IH: "\<And>cur segs. \<exists>out. segments_loop items cur segs = Inr out" by simp
  from Cons.prems have "\<not> malformed_citation item" by simp
  then show ?case using IH
    by (auto simp: malformed_citation_def split: option.splits item_data.splits)
qed

lemma segments_loop_Inr:
  "segments_loop items cur segs = Inr out \<Longrightarrow>
     \<exists>new. out = segs @ new
       \<and> referenced_segments new = attached_citations items (cur \<noteq> [])
       \<and> (\<forall>s\<in>set (butlast new). reference s \<noteq> None)"
proof (induction items arbitrary: cur segs)
  case Nil
  then show ?case by (auto simp: referenced_segments_def)
next
  case (Cons item items)
  show ?case
  proof (cases "is_text_chunk item")
    case True
    then obtain s where s: "type item = ''chunk''" "data item = Some (DString s)" "s \<noteq> []"
      by (auto simp: is_text_chunk_def split: option.splits item_data.splits)
    with Cons.prems have "segments_loop items (cur @ [s]) segs = Inr out" by simp
    from Cons.IH[OF this] True show ?thesis by simp
  next
    case nochunk: False
    show ?thesis
    proof (cases "is_citation item \<and> cur \<noteq> []")
      case True
      then obtain r where r: "type item = ''reference''" "data item = Some (DReference r)"
        by (auto simp: is_citation_def split: option.splits item_data.splits)
      let ?seg = "\<lparr>segment_text = concat cur, reference = Some (referenceStr r)\<rparr>"
      from r True Cons.prems have "segments_loop items [] (segs @ [?seg]) = Inr out" by simp
      from Cons.IH[OF this] obtain new where new: "out = (segs @ [?seg]) @ new"
        "referenced_segments new = attached_citations items False"
        "\<forall>s\<in>set (butlast new). reference s \<noteq> None" by auto
      have "\<forall>s\<in>set (butlast (?seg # new)). reference s \<noteq> None"
        using new(3) by (cases new) auto
      moreover have "referenced_segments (?seg # new) = attached_citations (item # items) (cur \<noteq> [])"
        using new(2) True nochunk by (simp add: referenced_segments_def)
      moreover have "out = segs @ (?seg # new)" using new(1) by simp
      ultimately show ?thesis by blast
    next
      case False
      with nochunk Cons.prems have "segments_loop items cur segs = Inr out"
        by (auto simp: is_text_chunk_def is_citation_def split: option.splits item_data.splits if_splits)
      from Cons.IH[OF this] False nochunk show ?thesis by auto
    qed
  qed
qed

lemma butlast_all_filter_le1:
  "\<forall>s\<in>set (butlast xs). P s \<Longrightarrow> length (filter (\<lambda>s. \<not> P s) xs) \<le> 1"
proof (cases xs rule: rev_cases)
  case Nil
  then show ?thesis by simp
next
  case (snoc ys y)
  assume "\<forall>s\<in>set (butlast xs). P s"
  with snoc have "filter (\<lambda>s. \<not> P s) ys = []" by (simp add: filter_empty_conv)
  with snoc show ?thesis by simp
qed

lemma attached_citations_le:
  "attached_citations items p \<le> length (filter is_citation items)"
  by (induction items arbitrary: p) (auto simp: le_SucI)

lemma segments_loop_ok:
  assumes "segments_loop items [] [] = Inr segs"
  shows "segments_ok items segs"
proof -
  from segments_loop_Inr[OF assms] have a: "referenced_segments segs = attached_citations items False"
    and b: "\<forall>s\<in>set (butlast segs). reference s \<noteq> None" by auto
  from butlast_all_filter_le1[of segs "\<lambda>s. reference s \<noteq> None"] b
  have "unreferenced_segments segs \<le> 1" by (simp add: unreferenced_segments_def)
  with a b attached_citations_le[of items False] show ?thesis
    by (simp add: segments_ok_def)
qed

lemma conversation_loop_ok:
  "conversation_loop queries = Inr conv \<Longrightarrow>
     list_all2 (\<lambda>query cq. segments_ok (response query) (answer_segments cq)) queries conv"
proof (induction queries arbitrary: conv)
  case Nil
  then show ?case by simp
next
  case (Cons query queries)
  then show ?case
    by (auto split: sum.splits simp: segments_loop_ok)
qed

lemma conversation_loop_total:
  "\<forall>query\<in>set queries. \<forall>item\<in>set (response query). \<not> malformed_citation item \<Longrightarrow>
     \<exists>conv. conversation_loop queries = Inr conv"
proof (induction queries)
  case Nil
  then show ?case by simp
next
  case (Cons query queries)
  then obtain conv where "conversation_loop queries = Inr conv" by auto
  moreover from Cons.prems obtain segs where "segments_loop (response query) [] [] = Inr segs"
    using segments_loop_total[of "response query" "[]" "[]"] by auto
  ultimately show ?case by simp
qed

lemma segments_ok_text:
  "segments_ok items (s\<lparr>segment_text := t\<rparr> # rest) = segments_ok items (s # rest)"
  by (simp add: segments_ok_def referenced_segments_def unreferenced_segments_def)

lemma filter_preamble_ok:
  assumes "list_all2 (\<lambda>query cq. segments_ok (response query) (answer_segments cq)) queries conv"
  shows "list_all2 (\<lambda>query cq. segments_ok (response query) (answer_segments cq)) queries (filter_preamble conv)"
proof (cases conv)
  case Nil
  with assms show ?thesis by (simp add: filter_preamble_def)
next
  case (Cons q qs)
  show ?thesis
  proof (cases "answer_segments q")
    case Nil
    with Cons assms show ?thesis by (simp add: filter_preamble_def)
  next
    case (Cons s rest)
    with \<open>conv = q # qs\<close> assms show ?thesis
      by (auto simp: filter_preamble_def list_all2_Cons2 segments_ok_text)
  qed
qed

lemma references_loop_total:
  "\<forall>r\<in>set refs. degenerate r \<or> \<not> inherited_property (resolve_filePath (file_path r)) \<Longrightarrow>
     \<exists>rf. references_loop fcm refs acc = Inr rf"
  by (induction refs arbitrary: acc) (auto simp: degenerate_def Let_def)

lemma transformResponse_returns:
  assumes "queries_of input \<noteq> []"
    and "\<forall>query\<in>set (queries_of input). \<forall>item\<in>set (response query). \<not> malformed_citation item"
    and "\<forall>r\<in>set (references input). degenerate r \<or> \<not> inherited_property (resolve_filePath (file_path r))"
  shows "\<exists>out. transformResponse input = Inr out"
proof -
  from assms(1) obtain q qs where q: "queries_of input = q # qs" by (cases "queries_of input") auto
  from conversation_loop_total[OF assms(2)] obtain conv where
    c: "conversation_loop (queries_of input) = Inr conv" by blast
  obtain fc fcm where f: "file_contents_loop (queries_of input) ([], []) = (fc, fcm)"
    by (cases "file_contents_loop (queries_of input) ([], [])") auto
  from references_loop_total[OF assms(3)] obtain rf where
    r: "references_loop fcm (references input) [] = Inr rf" by blast
  show ?thesis
    using q c f r unfolding transformResponse_def queries_of_def[symmetric]
    by (simp del: conversation_loop.simps file_contents_loop.simps)
qed

lemma transformResponse_conversation:
  assumes "transformResponse input = Inr out"
  shows "\<exists>conv. conversation_loop (queries_of input) = Inr conv \<and> conversation out = filter_preamble conv"
  using assms unfolding transformResponse_def queries_of_def[symmetric]
  by (auto split: list.splits sum.splits prod.splits simp: Let_def)

text \<open>
  Claim C1, as amended. For every fragment sequence of a query that \<open>transformResponse\<close>
  processes, the number of answer segments carrying a reference equals the number of
  citation fragments, of any range, that are met while text is pending (at least one
  non-empty text chunk since the last such citation or the start); it is at most the
  number of citation fragments; and besides these there is at most one segment without
  a reference, which is the last one. The function returns on every input with at
  least one query, no \<open>reference\<close> item whose object lacks the citation fields, and no
  cited path that names an inherited property.
\<close>
theorem answer_segments_count:
  "((queries_of input \<noteq> []
      \<and> (\<forall>query\<in>set (queries_of input). \<forall>item\<in>set (response query). \<not> malformed_citation item)
      \<and> (\<forall>r\<in>set (references input).
            degenerate r \<or> \<not> inherited_property (resolve_filePath (file_path r))))
     \<longrightarrow> (\<exists>out. transformResponse input = Inr out))
   \<and> (\<forall>out. transformResponse input = Inr out \<longrightarrow>
         list_all2 (\<lambda>query cq. segments_ok (response query) (answer_segments cq))
           (queries_of input) (conversation out))"
proof (intro conjI impI allI)
  assume "queries_of input \<noteq> []
      \<and> (\<forall>query\<in>set (queries_of input). \<forall>item\<in>set (response query). \<not> malformed_citation item)
      \<and> (\<forall>r\<in>set (references input).
            degenerate r \<or> \<not> inherited_property (resolve_filePath (file_path r)))"
  then show "\<exists>out. transformResponse input = Inr out"
    using transformResponse_returns by blast
next
  fix out assume "transformResponse input = Inr out"
  from transformResponse_conversation[OF this] obtain conv where
    "conversation_loop (queries_of input) = Inr conv" "conversation out = filter_preamble conv"
    by blast
  then show "list_all2 (\<lambda>query cq. segments_ok (response query) (answer_segments cq))
           (queries_of input) (conversation out)"
    using filter_preamble_ok[OF conversation_loop_ok] by simp
qed

lemmas example_defs = chunk_def citation_def capture_def example_query_def example_input_def

text \<open>
  As the claim states it, with the citations of non-degenerate range on the right-hand
  side, the count fails: a citation of range 0 and 0 that follows a text chunk closes a
  segment with its reference like any other.
\<close>

theorem degenerate_citation_counterexample:
  "map (\<lambda>cq. referenced_segments (answer_segments cq))
     (case transformResponse (example_input [chunk ''a'', citation ''a/b/x.py'' 0 0] []) of
        Inr out \<Rightarrow> conversation out | Inl e \<Rightarrow> []) = [1]
   \<and> map (\<lambda>query. length (filter nondegenerate_citation (response query)))
       (queries_of (example_input [chunk ''a'', citation ''a/b/x.py'' 0 0] [])) = [0]"
  by (simp add: example_defs transformResponse_def queries_of_def filter_preamble_def
      referenced_segments_def nondegenerate_citation_def degenerate_def)

theorem answer_segments_count_witness:
  "transformResponse (example_input [chunk ''a'', citation ''a/b/x.py'' 0 0, citation ''a/b/y.py'' 3 4, chunk ''b''] [])
     = Inr \<lparr>query_id = ''q_1'',
            conversation = [\<lparr>ConversationQuery.user_query = ''How does it work?'',
              answer_segments = [\<lparr>segment_text = ''a'', reference = Some ''a/b: x.py:0-0''\<rparr>,
                                 \<lparr>segment_text = ''b'', reference = None\<rparr>]\<rparr>],
            repo_context_ids = [''ctx-1''], referenced_files = [], full_context = []\<rparr>
   \<and> segments_ok [chunk ''a'', citation ''a/b/x.py'' 0 0, citation ''a/b/y.py'' 3 4, chunk ''b'']
        [\<lparr>segment_text = ''a'', reference = Some ''a/b: x.py:0-0''\<rparr>,
         \<lparr>segment_text = ''b'', reference = None\<rparr>]"
proof -
  let ?inp = "example_input [chunk ''a'', citation ''a/b/x.py'' 0 0, citation ''a/b/y.py'' 3 4, chunk ''b''] []"
  have ev: "transformResponse ?inp
     = Inr \<lparr>query_id = ''q_1'',
            conversation = [\<lparr>ConversationQuery.user_query = ''How does it work?'',
              answer_segments = [\<lparr>segment_text = ''a'', reference = Some ''a/b: x.py:0-0''\<rparr>,
                                 \<lparr>segment_text = ''b'', reference = None\<rparr>]\<rparr>],
            repo_context_ids = [''ctx-1''], referenced_files = [], full_context = []\<rparr>"
    by (simp add: example_defs transformResponse_def filter_preamble_def referenceStr_def
        range_suffix_def show_int_def show_nat.simps digit_char_def)
  from answer_segments_count[of ?inp] ev show ?thesis
    by (simp add: queries_of_def example_input_def example_query_def)
qed

subsection \<open>References of range 0 and 0\<close>

lemma references_loop_filter:
  "references_loop fcm (filter (\<lambda>r. \<not> degenerate r) refs) acc = references_loop fcm refs acc"
  by (induction refs arbitrary: acc) (auto simp: degenerate_def Let_def)

lemma push_entry_mem:
  "(k', es') \<in> set (push_entry kvs k v) \<Longrightarrow> e \<in> set es' \<Longrightarrow>
     (\<exists>es. (k', es) \<in> set kvs \<and> e \<in> set es) \<or> (k' = k \<and> e = v)"
proof (induction kvs)
  case Nil
  then show ?case by simp
next
  case (Cons kv kvs)
  obtain k0 vs where kv: "kv = (k0, vs)" by (cases kv)
  show ?case
  proof (cases "k0 = k")
    case True
    with Cons.prems kv have "(k', es') = (k, vs @ [v]) \<or> (k', es') \<in> set kvs" by simp
    then show ?thesis
    proof
      assume "(k', es') = (k, vs @ [v])"
      with Cons.prems(2) kv True show ?thesis by auto
    next
      assume "(k', es') \<in> set kvs"
      with Cons.prems(2) show ?thesis by auto
    qed
  next
    case False
    with Cons.prems kv have "(k', es') = (k0, vs) \<or> (k', es') \<in> set (push_entry kvs k v)" by simp
    then show ?thesis
    proof
      assume "(k', es') = (k0, vs)"
      with Cons.prems(2) kv show ?thesis by auto
    next
      assume "(k', es') \<in> set (push_entry kvs k v)"
      from Cons.IH[OF this Cons.prems(2)] show ?thesis by auto
    qed
  qed
qed

lemma push_entry_nonempty:
  "(k', es') \<in> set (push_entry kvs k v) \<Longrightarrow> \<forall>(k, es)\<in>set kvs. es \<noteq> [] \<Longrightarrow> es' \<noteq> []"
  by (induction kvs) (auto split: if_splits)

lemma references_loop_origin:
  "references_loop fcm refs acc = Inr rf \<Longrightarrow> (k, es) \<in> set rf \<Longrightarrow> e \<in> set es \<Longrightarrow>
     (\<exists>es'. (k, es') \<in> set acc \<and> e \<in> set es') \<or> from_citation refs k e"
proof (induction refs arbitrary: acc)
  case Nil
  then show ?case by auto
next
  case (Cons r refs)
  show ?case
  proof (cases "degenerate r")
    case True
    with Cons.prems have "references_loop fcm refs acc = Inr rf" by (simp add: degenerate_def)
    from Cons.IH[OF this Cons.prems(2,3)] show ?thesis
      by (auto simp: from_citation_def)
  next
    case False
    let ?p = "resolve_filePath (file_path r)"
    let ?e = "\<lparr>reference_range = show_int (range_start r) @ ''-'' @ show_int (range_end r),
                reference_material = referenceMaterial fcm ?p r\<rparr>"
    from False Cons.prems have "references_loop fcm refs (push_entry acc ?p ?e) = Inr rf"
      by (auto simp: degenerate_def Let_def split: if_splits)
    from Cons.IH[OF this Cons.prems(2,3)]
    consider es' where "(k, es') \<in> set (push_entry acc ?p ?e)" "e \<in> set es'" | "from_citation refs k e"
      by blast
    then show ?thesis
    proof cases
      case 1
      from push_entry_mem[OF 1] show ?thesis
      proof
        assume "\<exists>es. (k, es) \<in> set acc \<and> e \<in> set es"
        then show ?thesis by blast
      next
        assume "k = ?p \<and> e = ?e"
        with False show ?thesis by (auto simp: from_citation_def)
      qed
    next
      case 2
      then show ?thesis by (auto simp: from_citation_def)
    qed
  qed
qed

lemma references_loop_nonempty:
  "references_loop fcm refs acc = Inr rf \<Longrightarrow> \<forall>(k, es)\<in>set acc. es \<noteq> [] \<Longrightarrow> (k, es) \<in> set rf \<Longrightarrow> es \<noteq> []"
proof (induction refs arbitrary: acc)
  case Nil
  then show ?case by auto
next
  case (Cons r refs)
  show ?case
  proof (cases "degenerate r")
    case True
    with Cons.prems have "references_loop fcm refs acc = Inr rf" by (simp add: degenerate_def)
    from Cons.IH[OF this Cons.prems(2,3)] show ?thesis .
  next
    case False
    let ?p = "resolve_filePath (file_path r)"
    let ?e = "\<lparr>reference_range = show_int (range_start r) @ ''-'' @ show_int (range_end r),
                reference_material = referenceMaterial fcm ?p r\<rparr>"
    from False Cons.prems have l: "references_loop fcm refs (push_entry acc ?p ?e) = Inr rf"
      by (auto simp: degenerate_def Let_def split: if_splits)
    have "\<forall>(k, es)\<in>set (push_entry acc ?p ?e). es \<noteq> []"
      using push_entry_nonempty[OF _ Cons.prems(2)] by blast
    from Cons.IH[OF l this Cons.prems(3)] show ?thesis .
  qed
qed

lemma transformResponse_references:
  "transformResponse (input\<lparr>references := refs\<rparr>) =
     (case queries_of input of
        [] \<Rightarrow> Inl TypeError
      | first # _ \<Rightarrow>
          (case conversation_loop (queries_of input) of
             Inl e \<Rightarrow> Inl e
           | Inr conv \<Rightarrow>
               (case references_loop (snd (file_contents_loop (queries_of input) ([], []))) refs [] of
                  Inl e \<Rightarrow> Inl e
                | Inr referencedFiles \<Rightarrow>
                    Inr \<lparr>query_id = queryId input,
                         conversation = filter_preamble conv,
                         repo_context_ids = ApiQuery.repo_context_ids first,
                         referenced_files = referencedFiles,
                         full_context = fst (file_contents_loop (queries_of input) ([], []))\<rparr>)))"
  unfolding transformResponse_def queries_of_def
  by (simp add: Let_def split_beta split: list.splits sum.splits)

lemma digit_cases: "(d::nat) < 10 \<Longrightarrow> d \<in> {0, 1, 2, 3, 4, 5, 6, 7, 8, 9}"
  by auto

lemma digit_char_zero: "n < 10 \<Longrightarrow> digit_char n = CHR ''0'' \<longleftrightarrow> n = 0"
  using digit_cases[of n] by (auto simp: digit_char_def)

lemma digit_char_not_minus: "n < 10 \<Longrightarrow> digit_char n \<noteq> CHR ''-''"
  using digit_cases[of n] by (auto simp: digit_char_def)

lemma show_nat_no_minus: "CHR ''-'' \<notin> set (show_nat n)"
proof (induction n rule: show_nat.induct)
  case (1 n)
  show ?case
  proof (cases "n < 10")
    case True
    then show ?thesis using digit_char_not_minus[of n] by (subst show_nat.simps) simp
  next
    case False
    with 1 have "CHR ''-'' \<notin> set (show_nat (n div 10))" by simp
    moreover have "digit_char (n mod 10) \<noteq> CHR ''-''" by (rule digit_char_not_minus) simp
    ultimately show ?thesis using False by (subst show_nat.simps) simp
  qed
qed

lemma show_nat_nonempty: "show_nat n \<noteq> []"
  by (subst show_nat.simps) simp

lemma show_nat_zero: "show_nat n = ''0'' \<longleftrightarrow> n = 0"
proof (cases "n < 10")
  case True
  then show ?thesis using digit_char_zero[of n] by (subst show_nat.simps) simp
next
  case False
  then have "show_nat n = show_nat (n div 10) @ [digit_char (n mod 10)]" by (subst show_nat.simps) simp
  then have "length (show_nat n) \<ge> 2"
    using show_nat_nonempty[of "n div 10"] by (cases "show_nat (n div 10)") auto
  with False show ?thesis by auto
qed

lemma show_int_zero: "show_int i = ''0'' \<longleftrightarrow> i = 0"
  by (auto simp: show_int_def show_nat_zero show_nat_no_minus)

lemma range_text_zero:
  assumes "show_int a @ ''-'' @ show_int b = ''0-0''"
  shows "a = 0 \<and> b = 0"
proof -
  have nn: "\<not> a < 0" using assms by (auto simp: show_int_def)
  then have sa: "show_int a = show_nat (nat a)" by (simp add: show_int_def)
  obtain x xs where x: "show_nat (nat a) = x # xs"
    using show_nat_nonempty[of "nat a"] by (cases "show_nat (nat a)") auto
  with assms sa have x0: "x = CHR ''0''" and rest: "xs @ ''-'' @ show_int b = ''-0''" by auto
  have "xs = []"
  proof (cases xs)
    case Nil
    then show ?thesis .
  next
    case (Cons y ys)
    with rest have "y = CHR ''-''" by simp
    with Cons x show_nat_no_minus[of "nat a"] show ?thesis by auto
  qed
  with rest x x0 sa have "show_int a = ''0''" "show_int b = ''0''" by auto
  then show ?thesis by (simp add: show_int_zero)
qed

text \<open>
  Claim C3. An input reference whose \<open>range_start\<close> and \<open>range_end\<close> are both 0 contributes
  neither a key nor an entry to \<open>referenced_files\<close>, whatever the captures are: removing
  all such references from the input leaves the result of \<open>transformResponse\<close> unchanged;
  every entry of the map stems from a reference of another range, no key has an empty
  list, and no entry carries the range \<open>0-0\<close>; when all references are of range 0 and 0
  the map is empty.
\<close>
theorem degenerate_references_contribute_nothing:
  "transformResponse (input\<lparr>references := filter (\<lambda>r. \<not> degenerate r) (references input)\<rparr>)
     = transformResponse input
   \<and> (\<forall>out. transformResponse input = Inr out \<longrightarrow>
         (\<forall>(k, entries)\<in>set (referenced_files out).
            entries \<noteq> []
            \<and> (\<forall>e\<in>set entries. from_citation (references input) k e \<and> reference_range e \<noteq> ''0-0'')))
   \<and> ((\<forall>r\<in>set (references input). degenerate r) \<longrightarrow>
        (\<forall>out. transformResponse input = Inr out \<longrightarrow> referenced_files out = []))"
proof (intro conjI allI impI)
  show "transformResponse (input\<lparr>references := filter (\<lambda>r. \<not> degenerate r) (references input)\<rparr>)
     = transformResponse input"
  proof -
    have "transformResponse (input\<lparr>references := references input\<rparr>) = transformResponse input"
      by simp
    then show ?thesis
      unfolding transformResponse_references references_loop_filter by simp
  qed
next
  fix out assume ok: "transformResponse input = Inr out"
  then have "transformResponse (input\<lparr>references := references input\<rparr>) = Inr out" by simp
  then obtain rf where rf: "references_loop (snd (file_contents_loop (queries_of input) ([], [])))
       (references input) [] = Inr rf" "referenced_files out = rf"
    unfolding transformResponse_references
    by (auto split: list.splits sum.splits)
  show "\<forall>(k, entries)\<in>set (referenced_files out).
            entries \<noteq> []
            \<and> (\<forall>e\<in>set entries. from_citation (references input) k e \<and> reference_range e \<noteq> ''0-0'')"
  proof (clarify, intro conjI ballI)
    fix k entries assume m: "(k, entries) \<in> set (referenced_files out)"
    from references_loop_nonempty[OF rf(1)] m rf(2) show "entries \<noteq> []" by auto
    fix e assume e: "e \<in> set entries"
    from references_loop_origin[OF rf(1)] m e rf(2)
    show fc: "from_citation (references input) k e" by auto
    then show "reference_range e \<noteq> ''0-0''"
      unfolding from_citation_def degenerate_def using range_text_zero by metis
  qed
next
  fix out assume all: "\<forall>r\<in>set (references input). degenerate r"
    and ok: "transformResponse input = Inr out"
  then have "transformResponse (input\<lparr>references := references input\<rparr>) = Inr out" by simp
  then obtain rf where rf: "references_loop (snd (file_contents_loop (queries_of input) ([], [])))
       (references input) [] = Inr rf" "referenced_files out = rf"
    unfolding transformResponse_references
    by (auto split: list.splits sum.splits)
  show "referenced_files out = []"
  proof (cases "referenced_files out")
    case Nil
    then show ?thesis .
  next
    case (Cons p ps)
    obtain k es where p: "p = (k, es)" by (cases p)
    with Cons rf have m: "(k, es) \<in> set rf" by simp
    with references_loop_nonempty[OF rf(1)] have "es \<noteq> []" by auto
    then obtain e where "e \<in> set es" by (cases es) auto
    from references_loop_origin[OF rf(1) m this] have "from_citation (references input) k e" by auto
    with all show ?thesis by (auto simp: from_citation_def)
  qed
qed

lemma split_char_join_lines:
  "ls \<noteq> [] \<Longrightarrow> \<forall>l\<in>set ls. sep \<notin> set l \<Longrightarrow> split_char sep (join_with [sep] ls) = ls"
proof (induction "[sep]" ls rule: join_with.induct)
  case 1
  then show ?case by simp
next
  case (2 x)
  then show ?case by (simp add: split_char_no_sep)
next
  case (3 x y ys)
  then show ?case using split_char_append[of sep x "join_with [sep] (y # ys)"] by simp
qed

lemma take4_drop9:
  assumes "length ls = 20"
  shows "take 4 (drop 9 ls) = [ls ! 9, ls ! 10, ls ! 11, ls ! 12]"
proof -
  have "\<And>i. i < 4 \<Longrightarrow> take 4 (drop 9 ls) ! i = [ls ! 9, ls ! 10, ls ! 11, ls ! 12] ! i"
  proof -
    fix i :: nat assume "i < 4"
    then have "i = 0 \<or> i = 1 \<or> i = 2 \<or> i = 3" by presburger
    then show "take 4 (drop 9 ls) ! i = [ls ! 9, ls ! 10, ls ! 11, ls ! 12] ! i"
      using assms by auto
  qed
  then show ?thesis using assms by (intro nth_equalityI) auto
qed

text \<open>
  Claim C2, as amended. On the fragment sequence \<open>chunk "Looking at "\<close>, \<open>reference a/b/x.py 10-12\<close>,
  \<open>chunk " next."\<close>, with a capture of \<open>a/b/x.py\<close> of 20 lines, \<open>transformResponse\<close> yields
  exactly two answer segments, the first with the reference \<open>a/b: x.py:10-12\<close> and the
  second with none, and one referenced-files entry, of range \<open>10-12\<close>, whose text is the
  lines 9 to 12 (counted from 0) of the capture: four lines.
\<close>

theorem example_two_segments_four_lines:
  assumes "length ls = 20" and "\<forall>l\<in>set ls. nl \<notin> set l"
  shows "transformResponse
     (example_input
        [chunk ''Looking at '', citation ''a/b/x.py'' 10 12, chunk '' next.'',
         capture ''a/b'' ''x.py'' (join_with [nl] ls)]
        [\<lparr>file_path = ''a/b/x.py'', range_start = 10, range_end = 12\<rparr>])
   = Inr \<lparr>query_id = ''q_1'',
          conversation =
            [\<lparr>ConversationQuery.user_query = ''How does it work?'',
              answer_segments =
                [\<lparr>segment_text = ''Looking at '', reference = Some ''a/b: x.py:10-12''\<rparr>,
                 \<lparr>segment_text = '' next.'', reference = None\<rparr>]\<rparr>],
          repo_context_ids = [''ctx-1''],
          referenced_files =
            [(''a/b/x.py'',
              [\<lparr>reference_range = ''10-12'',
                reference_material = join_with [nl] [ls ! 9, ls ! 10, ls ! 11, ls ! 12]\<rparr>])],
          full_context = [\<lparr>file_name = ''a/b/x.py'', file_text = join_with [nl] ls\<rparr>]\<rparr>"
proof -
  from assms have sp: "split_char nl (join_with [nl] ls) = ls"
    by (intro split_char_join_lines) auto
  have sl: "js_slice ls 9 13 = [ls ! 9, ls ! 10, ls ! 11, ls ! 12]"
    using assms(1) take4_drop9[OF assms(1)] by (simp add: js_slice_def slice_pos_def)
  have rs: "referenceStr \<lparr>file_path = ''a/b/x.py'', range_start = 10, range_end = 12\<rparr> = ''a/b: x.py:10-12''"
    by (simp add: referenceStr_def range_suffix_def show_int_def show_nat.simps digit_char_def)
  have rg: "show_int 10 @ CHR ''-'' # show_int 12 = ''10-12''"
    by (simp add: show_int_def show_nat.simps digit_char_def)
  have rp: "resolve_filePath ''a/b/x.py'' = ''a/b/x.py''"
    by (simp add: resolve_filePath_def)
  have ih: "\<not> inherited_property ''a/b/x.py''"
    by (simp add: inherited_property_def)
  have mat: "referenceMaterial [(''a/b/x.py'', ls)] ''a/b/x.py''
      \<lparr>file_path = ''a/b/x.py'', range_start = 10, range_end = 12\<rparr>
      = join_with [nl] [ls ! 9, ls ! 10, ls ! 11, ls ! 12]"
    using assms(1) sl by (simp add: referenceMaterial_def)
  show ?thesis
    unfolding transformResponse_def example_defs
    by (simp add: rs rg rp ih mat sp filter_preamble_def Let_def del: join_with.simps)
qed

lemma referenceStr_example:
  "referenceStr \<lparr>file_path = ''a/b/x.py'', range_start = 10, range_end = 12\<rparr> = ''a/b: x.py:10-12''"
  by (simp add: referenceStr_def range_suffix_def show_int_def show_nat.simps digit_char_def)

lemma twenty_lines_split:
  "split_char nl (join_with [nl] twenty_lines) = twenty_lines"
  by (simp add: twenty_lines_def nl_def)

text \<open>
  The entry does not hold the three lines 9 to 11: the source slices up to and including
  the line at index \<open>range_end\<close>.
\<close>

theorem three_lines_counterexample:
  "(case transformResponse
           (example_input
              [chunk ''Looking at '', citation ''a/b/x.py'' 10 12, chunk '' next.'',
               capture ''a/b'' ''x.py'' (join_with [nl] twenty_lines)]
              [\<lparr>file_path = ''a/b/x.py'', range_start = 10, range_end = 12\<rparr>]) of
      Inr out \<Rightarrow> map (\<lambda>(k, es). (k, map reference_material es)) (referenced_files out)
    | Inl e \<Rightarrow> [])
     = [(''a/b/x.py'', [join_with [nl] [''l10'', ''l11'', ''l12'', ''l13'']])]
   \<and> join_with [nl] [''l10'', ''l11'', ''l12'', ''l13'']
       \<noteq> join_with [nl] [twenty_lines ! 9, twenty_lines ! 10, twenty_lines ! 11]"
proof -
  have mat: "referenceMaterial [(''a/b/x.py'', twenty_lines)] ''a/b/x.py''
      \<lparr>file_path = ''a/b/x.py'', range_start = 10, range_end = 12\<rparr>
      = join_with [nl] [''l10'', ''l11'', ''l12'', ''l13'']"
    by (simp add: referenceMaterial_def js_slice_def slice_pos_def twenty_lines_def)
  have ne: "join_with [nl] [''l10'', ''l11'', ''l12'', ''l13'']
       \<noteq> join_with [nl] [twenty_lines ! 9, twenty_lines ! 10, twenty_lines ! 11]"
    by (simp add: twenty_lines_def)
  have "transformResponse
           (example_input
              [chunk ''Looking at '', citation ''a/b/x.py'' 10 12, chunk '' next.'',
               capture ''a/b'' ''x.py'' (join_with [nl] twenty_lines)]
              [\<lparr>file_path = ''a/b/x.py'', range_start = 10, range_end = 12\<rparr>])
     = Inr \<lparr>query_id = ''q_1'',
          conversation =
            [\<lparr>ConversationQuery.user_query = ''How does it work?'',
              answer_segments =
                [\<lparr>segment_text = ''Looking at '', reference = Some ''a/b: x.py:10-12''\<rparr>,
                 \<lparr>segment_text = '' next.'', reference = None\<rparr>]\<rparr>],
          repo_context_ids = [''ctx-1''],
          referenced_files =
            [(''a/b/x.py'',
              [\<lparr>reference_range = ''10-12'',
                reference_material = join_with [nl] [''l10'', ''l11'', ''l12'', ''l13'']\<rparr>])],
          full_context = [\<lparr>file_name = ''a/b/x.py'', file_text = join_with [nl] twenty_lines\<rparr>]\<rparr>"
    unfolding transformResponse_def example_defs
    by (simp add: mat twenty_lines_split filter_preamble_def Let_def referenceStr_example
        show_int_def show_nat.simps digit_char_def resolve_filePath_def
        inherited_property_def del: join_with.simps)
  with ne show ?thesis by (simp del: join_with.simps)
qed

theorem example_two_segments_four_lines_witness:
  "length twenty_lines = 20
   \<and> transformResponse
     (example_input
        [chunk ''Looking at '', citation ''a/b/x.py'' 10 12, chunk '' next.'',
         capture ''a/b'' ''x.py'' (join_with [nl] twenty_lines)]
        [\<lparr>file_path = ''a/b/x.py'', range_start = 10, range_end = 12\<rparr>])
   = Inr \<lparr>query_id = ''q_1'',
          conversation =
            [\<lparr>ConversationQuery.user_query = ''How does it work?'',
              answer_segments =
                [\<lparr>segment_text = ''Looking at '', reference = Some ''a/b: x.py:10-12''\<rparr>,
                 \<lparr>segment_text = '' next.'', reference = None\<rparr>]\<rparr>],
          repo_context_ids = [''ctx-1''],
          referenced_files =
            [(''a/b/x.py'',
              [\<lparr>reference_range = ''10-12'',
                reference_material = join_with [nl] [''l10'', ''l11'', ''l12'', ''l13'']\<rparr>])],
          full_context = [\<lparr>file_name = ''a/b/x.py'', file_text = join_with [nl] twenty_lines\<rparr>]\<rparr>"
proof -
  have l: "length twenty_lines = 20" by (simp add: twenty_lines_def)
  have n: "\<forall>l\<in>set twenty_lines. nl \<notin> set l" by (simp add: twenty_lines_def nl_def)
  have e: "[twenty_lines ! 9, twenty_lines ! 10, twenty_lines ! 11, twenty_lines ! 12]
      = [''l10'', ''l11'', ''l12'', ''l13'']" by (simp add: twenty_lines_def)
  from example_two_segments_four_lines[OF l n] l e show ?thesis by (simp del: join_with.simps)
qed

text \<open>
  Claim C10. \<open>transformResponse\<close> is to return on every input with at least one query,
  skipping every item whose data does not fit its type. The items below are skipped,
  and an empty query list raises; but an item typed \<open>reference\<close> that carries a statistics
  object, met while text is pending, raises a \<^verbatim>\<open>TypeError\<close> instead of being skipped.
\<close>

theorem malformed_citation_throws:
  "transformResponse
     (example_input
        [chunk ''a'', \<lparr>type = ''reference'', data = Some (DStats \<lparr>key = ''k'', val = 1\<rparr>)\<rparr>] [])
   = Inl TypeError"
  by (simp add: example_defs transformResponse_def)

lemma skipped_items:
  "transformResponse
     (example_input
        [\<lparr>type = ''chunk'', data = Some (DTuple ''a'' ''b'' ''c'')\<rparr>,
         \<lparr>type = ''reference'', data = Some (DTuple ''a'' ''b'' ''c'')\<rparr>,
         \<lparr>type = ''reference'', data = Some (DString ''a/b/x.py'')\<rparr>,
         \<lparr>type = ''file_contents'', data = Some (DString ''text'')\<rparr>,
         \<lparr>type = ''stats'', data = Some (DStats \<lparr>key = ''k'', val = 1\<rparr>)\<rparr>,
         \<lparr>type = ''banner'', data = None\<rparr>] [])
   = Inr \<lparr>query_id = ''q_1'',
          conversation = [\<lparr>ConversationQuery.user_query = ''How does it work?'', answer_segments = []\<rparr>],
          repo_context_ids = [''ctx-1''], referenced_files = [], full_context = []\<rparr>"
  by (simp add: example_defs transformResponse_def filter_preamble_def)

lemma empty_rawResponse_throws:
  "transformResponse (input\<lparr>rawResponse := Many []\<rparr>) = Inl TypeError"
  by (simp add: transformResponse_def)

theorem degenerate_references_witness:
  "transformResponse
     (example_input [capture ''a/b'' ''x.py'' ''one'', capture ''a/b'' ''y.py'' ''uno'']
        [\<lparr>file_path = ''a/b/x.py'', range_start = 0, range_end = 0\<rparr>,
         \<lparr>file_path = ''a/b/y.py'', range_start = 1, range_end = 1\<rparr>])
   = Inr \<lparr>query_id = ''q_1'',
          conversation = [\<lparr>ConversationQuery.user_query = ''How does it work?'', answer_segments = []\<rparr>],
          repo_context_ids = [''ctx-1''],
          referenced_files = [(''a/b/y.py'', [\<lparr>reference_range = ''1-1'', reference_material = ''uno''\<rparr>])],
          full_context = [\<lparr>file_name = ''a/b/x.py'', file_text = ''one''\<rparr>,
                          \<lparr>file_name = ''a/b/y.py'', file_text = ''uno''\<rparr>]\<rparr>
   \<and> transformResponse
     (example_input [capture ''a/b'' ''x.py'' ''one'', capture ''a/b'' ''y.py'' ''uno'']
        [\<lparr>file_path = ''a/b/y.py'', range_start = 1, range_end = 1\<rparr>])
     = transformResponse
     (example_input [capture ''a/b'' ''x.py'' ''one'', capture ''a/b'' ''y.py'' ''uno'']
        [\<lparr>file_path = ''a/b/x.py'', range_start = 0, range_end = 0\<rparr>,
         \<lparr>file_path = ''a/b/y.py'', range_start = 1, range_end = 1\<rparr>])"
proof -
  let ?refs = "[\<lparr>file_path = ''a/b/x.py'', range_start = 0, range_end = 0\<rparr>,
         \<lparr>file_path = ''a/b/y.py'', range_start = 1, range_end = 1\<rparr>]"
  let ?inp = "example_input [capture ''a/b'' ''x.py'' ''one'', capture ''a/b'' ''y.py'' ''uno''] ?refs"
  have ev: "transformResponse ?inp
   = Inr \<lparr>query_id = ''q_1'',
          conversation = [\<lparr>ConversationQuery.user_query = ''How does it work?'', answer_segments = []\<rparr>],
          repo_context_ids = [''ctx-1''],
          referenced_files = [(''a/b/y.py'', [\<lparr>reference_range = ''1-1'', reference_material = ''uno''\<rparr>])],
          full_context = [\<lparr>file_name = ''a/b/x.py'', file_text = ''one''\<rparr>,
                          \<lparr>file_name = ''a/b/y.py'', file_text = ''uno''\<rparr>]\<rparr>"
    by (simp add: example_defs transformResponse_def filter_preamble_def Let_def
        referenceMaterial_def js_slice_def slice_pos_def nl_def
        show_int_def show_nat.simps digit_char_def resolve_filePath_def inherited_property_def)
  have "?inp\<lparr>references := filter (\<lambda>r. \<not> degenerate r) (references ?inp)\<rparr>
      = example_input [capture ''a/b'' ''x.py'' ''one'', capture ''a/b'' ''y.py'' ''uno'']
        [\<lparr>file_path = ''a/b/y.py'', range_start = 1, range_end = 1\<rparr>]"
    by (simp add: example_input_def degenerate_def)
  with degenerate_references_contribute_nothing[of ?inp] ev show ?thesis
    by (simp del: One_nat_def)
qed

section \<open>Properties of the renderer\<close>

subsection \<open>Code fences\<close>

lemma starts_with_run:
  "starts_with s (replicate n backtick) \<Longrightarrow> n \<le> length (takeWhile (\<lambda>x. x = backtick) s)"
proof (induction s arbitrary: n)
  case Nil
  then show ?case by (cases n) auto
next
  case (Cons c cs)
  then show ?case by (cases n) auto
qed

lemma includes_run_split:
  "js_includes cs (replicate n backtick) \<Longrightarrow>
     n \<le> length (takeWhile (\<lambda>x. x = backtick) cs)
     \<or> js_includes (dropWhile (\<lambda>x. x = backtick) cs) (replicate n backtick)"
proof (induction cs)
  case Nil
  then show ?case by simp
next
  case (Cons x xs)
  show ?case
  proof (cases "x = backtick")
    case True
    from Cons.prems have "starts_with (x # xs) (replicate n backtick) \<or> js_includes xs (replicate n backtick)"
      by simp
    then show ?thesis
    proof
      assume "starts_with (x # xs) (replicate n backtick)"
      from starts_with_run[OF this] show ?thesis by simp
    next
      assume "js_includes xs (replicate n backtick)"
      from Cons.IH[OF this] True show ?thesis by auto
    qed
  next
    case False
    with Cons.prems show ?thesis by simp
  qed
qed

lemma includes_run_match:
  "js_includes content (replicate n backtick) \<Longrightarrow> n > 0 \<Longrightarrow>
     \<exists>m\<in>set (backtick_matches content). n \<le> length m"
proof (induction content rule: backtick_matches.induct)
  case 1
  then show ?case by (cases n) auto
next
  case (2 c cs)
  show ?case
  proof (cases "c = backtick")
    case True
    from "2.prems" have "starts_with (c # cs) (replicate n backtick) \<or> js_includes cs (replicate n backtick)"
      by simp
    then show ?thesis
    proof
      assume "starts_with (c # cs) (replicate n backtick)"
      from starts_with_run[OF this] True show ?thesis by simp
    next
      assume "js_includes cs (replicate n backtick)"
      from includes_run_split[OF this] show ?thesis
      proof
        assume "n \<le> length (takeWhile (\<lambda>x. x = backtick) cs)"
        with True show ?thesis by simp
      next
        assume "js_includes (dropWhile (\<lambda>x. x = backtick) cs) (replicate n backtick)"
        from "2.IH"(1)[OF True this "2.prems"(2)] True show ?thesis by auto
      qed
    qed
  next
    case False
    with "2.prems" have "\<not> starts_with (c # cs) (replicate n backtick)" by (cases n) auto
    with "2.prems" have "js_includes cs (replicate n backtick)" by simp
    from "2.IH"(2)[OF False this "2.prems"(2)] False show ?thesis by simp
  qed
qed

lemma foldl_max_ge: "a \<le> foldl (\<lambda>m s. max m (length s)) a xs"
proof (induction xs arbitrary: a)
  case Nil
  then show ?case by simp
next
  case (Cons x xs)
  have "a \<le> max a (length x)" by simp
  also have "\<dots> \<le> foldl (\<lambda>m s. max m (length s)) (max a (length x)) xs" by (rule Cons.IH)
  finally show ?case by simp
qed

lemma foldl_max_mem: "x \<in> set xs \<Longrightarrow> length x \<le> foldl (\<lambda>m s. max m (length s)) a xs"
proof (induction xs arbitrary: a)
  case Nil
  then show ?case by simp
next
  case (Cons y ys)
  show ?case
  proof (cases "x = y")
    case True
    have "length x \<le> max a (length y)" using True by simp
    also have "\<dots> \<le> foldl (\<lambda>m s. max m (length s)) (max a (length y)) ys" by (rule foldl_max_ge)
    finally show ?thesis by simp
  next
    case False
    with Cons show ?thesis by simp
  qed
qed

lemma fence_longer_than_run:
  assumes "js_includes content (replicate n backtick)"
  shows "n + 1 \<le> length (fence_open (getCodeFence content))"
proof (cases "n > 0")
  case True
  from includes_run_match[OF assms True] obtain m where
    "m \<in> set (backtick_matches content)" "n \<le> length m" by blast
  with foldl_max_mem[of m "backtick_matches content" 0]
  show ?thesis by (simp add: getCodeFence_def Let_def)
next
  case False
  then show ?thesis by (simp add: getCodeFence_def Let_def)
qed

lemma fence_shape:
  "fence_open (getCodeFence content) = replicate (length (fence_open (getCodeFence content))) backtick
   \<and> fence_close (getCodeFence content) = fence_open (getCodeFence content)
   \<and> 3 \<le> length (fence_open (getCodeFence content))"
  by (simp add: getCodeFence_def Let_def)

lemma fence_not_in_content:
  "\<not> js_includes content (fence_open (getCodeFence content))"
proof
  assume a: "js_includes content (fence_open (getCodeFence content))"
  let ?k = "length (fence_open (getCodeFence content))"
  from a fence_shape[of content] have "js_includes content (replicate ?k backtick)" by simp
  from fence_longer_than_run[OF this] show False by simp
qed

lemma example_uniqueReferences:
  "uniqueReferences example_document = [''a/b: x.py:10-12'', ''a/b: y.py:1-2'', ''a/b: z.py:3-4'']"
  by (simp add: uniqueReferences_def example_document_def)

text \<open>The two sections as sequences of fenced blocks.\<close>

lemma render_entries_blocks:
  "render_entries rs es
     = concat (map (\<lambda>entry. ''**['' @ reference_range entry @ '']:**'' @ [nl, nl]
                              @ fenced_block (reference_material entry))
                   (filter (\<lambda>entry. reference_range entry \<in> set rs) es))"
  by (induction es) auto

lemma render_files_blocks:
  "render_files m files
     = concat (map (\<lambda>(fileName, entries).
                      ''## '' @ fileName @ [nl, nl]
                        @ concat (map (\<lambda>entry. ''**['' @ reference_range entry @ '']:**'' @ [nl, nl]
                                                 @ fenced_block (reference_material entry))
                                      (filter (\<lambda>entry. reference_range entry \<in> ranges_of m fileName) entries)))
                   (filter (\<lambda>(fileName, entries). map_of m fileName \<noteq> None) files))"
proof (induction files)
  case Nil
  then show ?case by simp
next
  case (Cons p files)
  obtain fileName entries where p: "p = (fileName, entries)" by (cases p)
  show ?case
  proof (cases "map_of m fileName")
    case None
    with p Cons show ?thesis by simp
  next
    case (Some rs)
    then have "ranges_of m fileName = set rs" by (simp add: ranges_of_def)
    with Some p Cons show ?thesis by (simp add: render_entries_blocks)
  qed
qed

lemma context_block_hidden:
  "\<not> shown_file includeAll selectedFiles context \<Longrightarrow>
     context_block includeAll selectedFiles fileRanges context = []"
  by (simp add: context_block_def shown_file_def Let_def)

lemma context_block_shown:
  "shown_file includeAll selectedFiles context \<Longrightarrow>
     context_block includeAll selectedFiles fileRanges context
       = ''## '' @ file_name context @ '' ['' @ show_int (fst (shown_range fileRanges context))
           @ ''-'' @ show_int (snd (shown_range fileRanges context)) @ '']'' @ [nl, nl]
           @ fenced_block (shown_content fileRanges context)"
  unfolding context_block_def shown_file_def shown_range_def shown_content_def Let_def
  by (simp split: option.splits prod.splits)

lemma context_blocks_shown:
  "concat (map (context_block includeAll selectedFiles fileRanges) cs)
     = concat (map (\<lambda>context.
                 ''## '' @ file_name context @ '' ['' @ show_int (fst (shown_range fileRanges context))
                   @ ''-'' @ show_int (snd (shown_range fileRanges context)) @ '']'' @ [nl, nl]
                   @ fenced_block (shown_content fileRanges context))
               (filter (shown_file includeAll selectedFiles) cs))"
  by (induction cs) (simp_all add: context_block_hidden context_block_shown)

lemma fenced_block_unfold:
  "fenced_block content
     = fence_open (getCodeFence content) @ [nl] @ content
         @ (if endsWith_nl content then [] else [nl])
         @ fence_close (getCodeFence content) @ [nl, nl]"
  by (simp add: fenced_block_def Let_def)

text \<open>
  Claim C6. For every content that the renderer fences: if the content contains a run of
  \<open>n\<close> consecutive backticks, the fence that \<open>getCodeFence\<close> chooses for it has \<open>n + 1\<close>
  backticks or more, and three at least; the opening and the closing fence are the same
  run of backticks; that run does not occur in the content, so the block that opens with
  the fence is closed by the closing fence and by nothing before it. And the renderer
  fences every content with the fence chosen for that very content: \<open>render_entries\<close>
  emits, for an entry whose range is selected, the heading of the range and then the
  snippet between the fence of the snippet; \<open>context_block\<close> emits, for a file that is
  shown, the heading of the file and then the shown lines between the fence of the shown
  lines; the Referenced Files section is made of such blocks and nothing else, one for
  each selected entry of each selected file, and the Full Context Files section of one
  such block for each shown file.
\<close>
theorem fence_longer_than_any_backtick_run:
  "(\<forall>n. js_includes content (replicate n backtick) \<longrightarrow>
        n + 1 \<le> length (fence_open (getCodeFence content)))
   \<and> 3 \<le> length (fence_open (getCodeFence content))
   \<and> fence_open (getCodeFence content)
       = replicate (length (fence_open (getCodeFence content))) backtick
   \<and> fence_close (getCodeFence content) = fence_open (getCodeFence content)
   \<and> \<not> js_includes content (fence_open (getCodeFence content))
   \<and> fenced_block content
       = fence_open (getCodeFence content) @ [nl] @ content
           @ (if endsWith_nl content then [] else [nl])
           @ fence_close (getCodeFence content) @ [nl, nl]
   \<and> (reference_range entry \<in> set includedRanges \<longrightarrow>
        render_entries includedRanges (entry # entries)
          = ''**['' @ reference_range entry @ '']:**'' @ [nl, nl]
              @ fence_open (getCodeFence (reference_material entry)) @ [nl]
              @ reference_material entry
              @ (if endsWith_nl (reference_material entry) then [] else [nl])
              @ fence_close (getCodeFence (reference_material entry)) @ [nl, nl]
              @ render_entries includedRanges entries)
   \<and> (shown_file includeAll selectedFiles item \<longrightarrow>
        context_block includeAll selectedFiles fileRanges item
          = ''## '' @ file_name item @ '' ['' @ show_int (fst (shown_range fileRanges item))
              @ ''-'' @ show_int (snd (shown_range fileRanges item)) @ '']'' @ [nl, nl]
              @ fence_open (getCodeFence (shown_content fileRanges item)) @ [nl]
              @ shown_content fileRanges item
              @ (if endsWith_nl (shown_content fileRanges item) then [] else [nl])
              @ fence_close (getCodeFence (shown_content fileRanges item)) @ [nl, nl])
   \<and> formatReferencedFiles d allReferences selectedNumbers
       = ''# Referenced Files'' @ [nl, nl]
           @ concat (map (\<lambda>(fileName, entries).
                 ''## '' @ fileName @ [nl, nl]
                   @ concat (map (\<lambda>entry. ''**['' @ reference_range entry @ '']:**'' @ [nl, nl]
                                            @ fenced_block (reference_material entry))
                       (filter (\<lambda>entry. reference_range entry
                                           \<in> ranges_of (selected_ranges d allReferences selectedNumbers) fileName)
                          entries)))
               (filter (\<lambda>(fileName, entries).
                          map_of (selected_ranges d allReferences selectedNumbers) fileName \<noteq> None)
                  (object_entries (referenced_files d))))
   \<and> formatFullContext d includeAll selectedFiles fileRanges
       = ''# Full Context Files'' @ [nl, nl]
           @ concat (map (\<lambda>context.
                 ''## '' @ file_name context @ '' ['' @ show_int (fst (shown_range fileRanges context))
                   @ ''-'' @ show_int (snd (shown_range fileRanges context)) @ '']'' @ [nl, nl]
                   @ fenced_block (shown_content fileRanges context))
               (filter (shown_file includeAll selectedFiles) (full_context d)))"
proof (intro conjI allI impI)
  fix n assume "js_includes content (replicate n backtick)"
  then show "n + 1 \<le> length (fence_open (getCodeFence content))" by (rule fence_longer_than_run)
next
  show "3 \<le> length (fence_open (getCodeFence content))" using fence_shape by blast
  show "fence_open (getCodeFence content)
       = replicate (length (fence_open (getCodeFence content))) backtick" using fence_shape by blast
  show "fence_close (getCodeFence content) = fence_open (getCodeFence content)" using fence_shape by blast
  show "\<not> js_includes content (fence_open (getCodeFence content))" by (rule fence_not_in_content)
  show "fenced_block content
       = fence_open (getCodeFence content) @ [nl] @ content
           @ (if endsWith_nl content then [] else [nl])
           @ fence_close (getCodeFence content) @ [nl, nl]" by (rule fenced_block_unfold)
next
  assume "reference_range entry \<in> set includedRanges"
  then show "render_entries includedRanges (entry # entries)
          = ''**['' @ reference_range entry @ '']:**'' @ [nl, nl]
              @ fence_open (getCodeFence (reference_material entry)) @ [nl]
              @ reference_material entry
              @ (if endsWith_nl (reference_material entry) then [] else [nl])
              @ fence_close (getCodeFence (reference_material entry)) @ [nl, nl]
              @ render_entries includedRanges entries"
    by (simp add: fenced_block_unfold)
next
  assume "shown_file includeAll selectedFiles item"
  from context_block_shown[OF this]
  show "context_block includeAll selectedFiles fileRanges item
          = ''## '' @ file_name item @ '' ['' @ show_int (fst (shown_range fileRanges item))
              @ ''-'' @ show_int (snd (shown_range fileRanges item)) @ '']'' @ [nl, nl]
              @ fence_open (getCodeFence (shown_content fileRanges item)) @ [nl]
              @ shown_content fileRanges item
              @ (if endsWith_nl (shown_content fileRanges item) then [] else [nl])
              @ fence_close (getCodeFence (shown_content fileRanges item)) @ [nl, nl]"
    by (simp add: fenced_block_unfold)
next
  show "formatReferencedFiles d allReferences selectedNumbers
       = ''# Referenced Files'' @ [nl, nl]
           @ concat (map (\<lambda>(fileName, entries).
                 ''## '' @ fileName @ [nl, nl]
                   @ concat (map (\<lambda>entry. ''**['' @ reference_range entry @ '']:**'' @ [nl, nl]
                                            @ fenced_block (reference_material entry))
                       (filter (\<lambda>entry. reference_range entry
                                           \<in> ranges_of (selected_ranges d allReferences selectedNumbers) fileName)
                          entries)))
               (filter (\<lambda>(fileName, entries).
                          map_of (selected_ranges d allReferences selectedNumbers) fileName \<noteq> None)
                  (object_entries (referenced_files d))))"
    unfolding formatReferencedFiles_def Let_def selected_ranges_def
    by (simp only: render_files_blocks)
  show "formatFullContext d includeAll selectedFiles fileRanges
       = ''# Full Context Files'' @ [nl, nl]
           @ concat (map (\<lambda>context.
                 ''## '' @ file_name context @ '' ['' @ show_int (fst (shown_range fileRanges context))
                   @ ''-'' @ show_int (snd (shown_range fileRanges context)) @ '']'' @ [nl, nl]
                   @ fenced_block (shown_content fileRanges context))
               (filter (shown_file includeAll selectedFiles) (full_context d)))"
    unfolding formatFullContext_def by (simp only: context_blocks_shown)
qed

theorem fence_longer_than_any_backtick_run_witness:
  "js_includes ''a`b```c``'' (replicate 3 backtick)
   \<and> fence_open (getCodeFence ''a`b```c``'') = replicate 4 backtick
   \<and> 3 + 1 \<le> length (fence_open (getCodeFence ''a`b```c``''))
   \<and> ''1-2'' \<in> set [''1-2'', ''7-9'']
   \<and> render_entries [''1-2'', ''7-9''] [\<lparr>reference_range = ''1-2'', reference_material = ''```js''\<rparr>]
       = ''**[1-2]:**'' @ [nl, nl] @ ''````'' @ [nl] @ ''```js'' @ [nl] @ ''````'' @ [nl, nl]
   \<and> shown_file False (Some [''a/b/x.py'']) example_file
   \<and> context_block False (Some [''a/b/x.py'']) (Some [(''a/b/x.py'', (1, 9))]) example_file
       = ''## a/b/x.py [1-2]'' @ [nl, nl]
           @ ''````'' @ [nl] @ ''a```b'' @ [nl] @ ''c'' @ [nl] @ ''````'' @ [nl, nl]
   \<and> formatReferencedFiles example_document True None
       = ''# Referenced Files'' @ [nl, nl]
           @ ''## a/b/x.py'' @ [nl, nl] @ ''**[10-12]:**'' @ [nl, nl]
           @ ''```'' @ [nl] @ ''print(`x`)'' @ [nl] @ ''```'' @ [nl, nl]
           @ ''## a/b/y.py'' @ [nl, nl] @ ''**[1-2]:**'' @ [nl, nl]
           @ ''````'' @ [nl] @ ''```js'' @ [nl] @ ''````'' @ [nl, nl]
   \<and> formatFullContext (example_document\<lparr>full_context := [example_file]\<rparr>)
         False (Some [''a/b/x.py'']) None
       = ''# Full Context Files'' @ [nl, nl]
           @ ''## a/b/x.py [0-2]'' @ [nl, nl]
           @ ''````'' @ [nl] @ ''x'' @ [nl] @ ''a```b'' @ [nl] @ ''c'' @ [nl] @ ''````'' @ [nl, nl]"
proof -
  note t = fence_longer_than_any_backtick_run
    [where content = "''a`b```c``''"
       and entry = "\<lparr>reference_range = ''1-2'', reference_material = ''```js''\<rparr>"
       and includedRanges = "[''1-2'', ''7-9'']" and entries = "[]"
       and includeAll = False and selectedFiles = "Some [''a/b/x.py'']"
       and item = example_file and fileRanges = "Some [(''a/b/x.py'', (1, 9))]"
       and d = example_document and allReferences = True and selectedNumbers = None]
  note u = fence_longer_than_any_backtick_run
    [where content = "''```js''"
       and includeAll = False and selectedFiles = "Some [''a/b/x.py'']" and fileRanges = None
       and d = "example_document\<lparr>full_context := [example_file]\<rparr>"]
  note t_run = t[THEN conjunct1, rule_format]
  note t6 = t[THEN conjunct2, THEN conjunct2, THEN conjunct2, THEN conjunct2, THEN conjunct2,
              THEN conjunct2]
  note t_entry = t6[THEN conjunct1, rule_format]
  note t_file = t6[THEN conjunct2, THEN conjunct1, rule_format]
  note t_refs = t6[THEN conjunct2, THEN conjunct2, THEN conjunct1]
  note u_full = u[THEN conjunct2, THEN conjunct2, THEN conjunct2, THEN conjunct2, THEN conjunct2,
                  THEN conjunct2, THEN conjunct2, THEN conjunct2, THEN conjunct2]
  have i: "js_includes ''a`b```c``'' (replicate 3 backtick)"
    by (simp add: backtick_def eval_nat_numeral)
  have f: "fence_open (getCodeFence ''a`b```c``'') = replicate 4 backtick"
    by (simp add: getCodeFence_def backtick_def Let_def eval_nat_numeral)
  from t_run[OF i] have l: "3 + 1 \<le> length (fence_open (getCodeFence ''a`b```c``''))" .
  have g: "getCodeFence ''```js'' = \<lparr>fence_open = ''````'', fence_close = ''````''\<rparr>"
          "getCodeFence ''print(`x`)'' = \<lparr>fence_open = ''```'', fence_close = ''```''\<rparr>"
    by (simp_all add: getCodeFence_def backtick_def nl_def Let_def eval_nat_numeral)
  have e: "\<not> endsWith_nl ''```js''" "\<not> endsWith_nl ''print(`x`)''"
    by (simp_all add: endsWith_nl_def nl_def)
  have m: "''1-2'' \<in> set [''1-2'', ''7-9'']" by simp
  then have m': "reference_range \<lparr>reference_range = ''1-2'', reference_material = ''```js''\<rparr>
                   \<in> set [''1-2'', ''7-9'']" by simp
  have r: "render_entries [''1-2'', ''7-9''] [\<lparr>reference_range = ''1-2'', reference_material = ''```js''\<rparr>]
       = ''**[1-2]:**'' @ [nl, nl] @ ''````'' @ [nl] @ ''```js'' @ [nl] @ ''````'' @ [nl, nl]"
    unfolding t_entry[OF m'] by (simp add: g e)
  have s: "shown_file False (Some [''a/b/x.py'']) example_file"
    by (simp add: shown_file_def example_file_def)
  have n: "show_int 0 = ''0''" "show_int 1 = ''1''" "show_int 2 = ''2''"
    by (simp_all add: show_int_def show_nat.simps digit_char_def)
  have sp: "split_char nl (file_text example_file) = [''x'', ''a```b'', ''c'']"
    by (simp add: example_file_def nl_def)
  have fn: "file_name example_file = ''a/b/x.py''"
    by (simp add: example_file_def)
  have sr: "shown_range (Some [(''a/b/x.py'', (1, 9))]) example_file = (1, 2)"
           "shown_range None example_file = (0, 2)"
    by (simp_all add: shown_range_def sp fn Let_def)
  have sc: "shown_content (Some [(''a/b/x.py'', (1, 9))]) example_file = ''a```b'' @ [nl] @ ''c''"
           "shown_content None example_file = ''x'' @ [nl] @ ''a```b'' @ [nl] @ ''c''"
    by (simp_all add: shown_content_def sr sp js_slice_def slice_pos_def Let_def)
  have c: "context_block False (Some [''a/b/x.py'']) (Some [(''a/b/x.py'', (1, 9))]) example_file
       = ''## a/b/x.py [1-2]'' @ [nl, nl]
           @ ''````'' @ [nl] @ ''a```b'' @ [nl] @ ''c'' @ [nl] @ ''````'' @ [nl, nl]"
    unfolding t_file[OF s]
    by (simp add: sr sc n fn getCodeFence_def endsWith_nl_def backtick_def nl_def Let_def eval_nat_numeral)
  have p: "parse_reference ''a/b: x.py:10-12'' = Some (''a/b/x.py'', ''10-12'')"
          "parse_reference ''a/b: y.py:1-2'' = Some (''a/b/y.py'', ''1-2'')"
          "parse_reference ''a/b: z.py:3-4'' = Some (''a/b/z.py'', ''3-4'')"
    by (simp_all add: parse_reference_def trim_def js_whitespace_def Let_def)
  have sel: "selected_ranges example_document True None
       = [(''a/b/x.py'', [''10-12'']), (''a/b/y.py'', [''1-2'']), (''a/b/z.py'', [''3-4''])]"
    by (simp add: selected_ranges_def example_uniqueReferences includedReferences_def set_add_def
        group_reference_def p)
  have ai: "\<not> is_array_index ''a/b/x.py''" "\<not> is_array_index ''a/b/y.py''"
    by (simp_all add: is_array_index_def is_digit_def)
  have oe: "object_entries (referenced_files example_document)
       = [(''a/b/x.py'', [\<lparr>reference_range = ''10-12'', reference_material = ''print(`x`)''\<rparr>]),
          (''a/b/y.py'', [\<lparr>reference_range = ''1-2'', reference_material = ''```js''\<rparr>])]"
    by (simp add: object_entries_def example_document_def ai)
  have rf: "formatReferencedFiles example_document True None
       = ''# Referenced Files'' @ [nl, nl]
           @ ''## a/b/x.py'' @ [nl, nl] @ ''**[10-12]:**'' @ [nl, nl]
           @ ''```'' @ [nl] @ ''print(`x`)'' @ [nl] @ ''```'' @ [nl, nl]
           @ ''## a/b/y.py'' @ [nl, nl] @ ''**[1-2]:**'' @ [nl, nl]
           @ ''````'' @ [nl] @ ''```js'' @ [nl] @ ''````'' @ [nl, nl]"
    unfolding t_refs sel oe by (simp add: ranges_of_def fenced_block_def g e Let_def)
  have fc: "formatFullContext (example_document\<lparr>full_context := [example_file]\<rparr>)
         False (Some [''a/b/x.py'']) None
       = ''# Full Context Files'' @ [nl, nl]
           @ ''## a/b/x.py [0-2]'' @ [nl, nl]
           @ ''````'' @ [nl] @ ''x'' @ [nl] @ ''a```b'' @ [nl] @ ''c'' @ [nl] @ ''````'' @ [nl, nl]"
    unfolding u_full
    by (simp add: s sr sc n fn fenced_block_def getCodeFence_def endsWith_nl_def backtick_def nl_def
        Let_def eval_nat_numeral)
  from i f l m r s c rf fc show ?thesis by blast
qed

subsection \<open>Selection of snippets\<close>

lemma map_of_add_range:
  "map_of (add_range m f r) f' =
     (if f' = f then Some (case map_of m f of None \<Rightarrow> [r] | Some rs \<Rightarrow> set_add rs r)
      else map_of m f')"
  by (induction m) auto

lemma ranges_of_add_range:
  "ranges_of (add_range m f r) f' = (if f' = f then insert r (ranges_of m f) else ranges_of m f')"
  by (auto simp: ranges_of_def map_of_add_range set_add_def split: option.splits)

lemma ranges_inhabited_add_range:
  "ranges_inhabited m \<Longrightarrow> ranges_inhabited (add_range m f r)"
  by (auto simp: ranges_inhabited_def map_of_add_range set_add_def split: option.splits if_splits)

lemma group_reference_ranges:
  "ranges_of (group_reference m ref) f =
     ranges_of m f \<union> {r. parse_reference ref = Some (f, r)}"
  by (auto simp: group_reference_def ranges_of_add_range split: option.splits)

lemma group_reference_inhabited:
  "ranges_inhabited m \<Longrightarrow> ranges_inhabited (group_reference m ref)"
  by (auto simp: group_reference_def ranges_inhabited_add_range split: option.splits)

lemma foldl_group_ranges:
  "ranges_of (foldl group_reference m refs) f =
     ranges_of m f \<union> {r. \<exists>ref\<in>set refs. parse_reference ref = Some (f, r)}"
  by (induction refs arbitrary: m) (auto simp: group_reference_ranges)

lemma foldl_group_inhabited:
  "ranges_inhabited m \<Longrightarrow> ranges_inhabited (foldl group_reference m refs)"
  by (induction refs arbitrary: m) (auto simp: group_reference_inhabited)

lemma render_entries_cong:
  "set rs = set rs' \<Longrightarrow> render_entries rs entries = render_entries rs' entries"
  by (induction entries) auto

lemma render_files_cong:
  assumes "ranges_inhabited m" "ranges_inhabited m'" "\<And>f. ranges_of m f = ranges_of m' f"
  shows "render_files m files = render_files m' files"
proof (induction files)
  case Nil
  then show ?case by simp
next
  case (Cons p files)
  obtain fileName entries where p: "p = (fileName, entries)" by (cases p)
  show ?case
  proof (cases "map_of m fileName")
    case None
    then have "ranges_of m' fileName = {}" using assms(3)[of fileName] by (simp add: ranges_of_def)
    then have "map_of m' fileName = None"
      using assms(2) by (auto simp: ranges_of_def ranges_inhabited_def split: option.splits)
    with None p Cons show ?thesis by simp
  next
    case (Some rs)
    with assms(1) have "rs \<noteq> []" by (auto simp: ranges_inhabited_def)
    with Some have "ranges_of m fileName \<noteq> {}" by (simp add: ranges_of_def)
    then have "ranges_of m' fileName \<noteq> {}" using assms(3)[of fileName] by simp
    then obtain rs' where rs': "map_of m' fileName = Some rs'"
      by (auto simp: ranges_of_def split: option.splits)
    with Some assms(3)[of fileName] have "set rs = set rs'" by (simp add: ranges_of_def)
    from render_entries_cong[OF this] Some rs' p Cons show ?thesis by simp
  qed
qed

lemma set_set_add: "set (set_add xs x) = insert x (set xs)"
  by (auto simp: set_add_def)

lemma set_select_number:
  "set (select_number u acc num) =
     set acc \<union> (if 1 \<le> num \<and> num \<le> int (length u) then {u ! nat (num - 1)} else {})"
  by (auto simp: select_number_def Let_def set_set_add)

lemma set_foldl_select:
  "set (foldl (select_number u) acc nums) =
     set acc \<union> {u ! nat (num - 1) | num. num \<in> set nums \<and> 1 \<le> num \<and> num \<le> int (length u)}"
proof (induction nums arbitrary: acc)
  case Nil
  then show ?case by simp
next
  case (Cons n nums)
  show ?case unfolding foldl_Cons Cons.IH set_select_number by auto
qed

lemma included_set_cong:
  "set nums = set nums' \<Longrightarrow>
     set (includedReferences u incl (Some nums)) = set (includedReferences u incl (Some nums'))"
  by (simp add: includedReferences_def set_foldl_select)

lemma ranges_inhabited_Nil: "ranges_inhabited []"
  by (simp add: ranges_inhabited_def)

lemma ranges_of_Nil: "ranges_of [] f = {}"
  by (simp add: ranges_of_def)

lemma formatReferencedFiles_set:
  assumes "set (includedReferences (uniqueReferences d) incl sel)
         = set (includedReferences (uniqueReferences d) incl sel')"
  shows "formatReferencedFiles d incl sel = formatReferencedFiles d incl sel'"
proof -
  let ?m = "foldl group_reference [] (includedReferences (uniqueReferences d) incl sel)"
  let ?m' = "foldl group_reference [] (includedReferences (uniqueReferences d) incl sel')"
  have "render_files ?m (object_entries (referenced_files d))
      = render_files ?m' (object_entries (referenced_files d))"
  proof (rule render_files_cong)
    show "ranges_inhabited ?m" by (rule foldl_group_inhabited[OF ranges_inhabited_Nil])
    show "ranges_inhabited ?m'" by (rule foldl_group_inhabited[OF ranges_inhabited_Nil])
    fix f show "ranges_of ?m f = ranges_of ?m' f"
      unfolding foldl_group_ranges ranges_of_Nil using assms by simp
  qed
  then show ?thesis by (simp add: formatReferencedFiles_def Let_def)
qed

lemma formatReferencedFiles_selection_set:
  "set nums = set nums' \<Longrightarrow>
     formatReferencedFiles d incl (Some nums) = formatReferencedFiles d incl (Some nums')"
  by (rule formatReferencedFiles_set) (rule included_set_cong)

lemma foldl_select_filter:
  "foldl (select_number u) acc (filter (\<lambda>num. 1 \<le> num \<and> num \<le> int (length u)) nums)
     = foldl (select_number u) acc nums"
  by (induction nums arbitrary: acc) (auto simp: select_number_def Let_def)

lemma generateMarkdown_numbers:
  assumes "formatReferencedFiles d (referencesAll opts) (Some nums)
         = formatReferencedFiles d (referencesAll opts) (Some nums')"
  shows "generateMarkdown d (opts\<lparr>referencesNumbers := Some nums\<rparr>)
       = generateMarkdown d (opts\<lparr>referencesNumbers := Some nums'\<rparr>)"
  using assms by (simp add: generateMarkdown_def)

subsection \<open>First appearance\<close>

lemma unique_segments_loop_eq:
  "unique_segments_loop segs acc =
     foldl set_add acc (concat (map (\<lambda>segment. case reference segment of
                                                      None \<Rightarrow> []
                                                    | Some r \<Rightarrow> if r = [] then [] else [r]) segs))"
  by (induction segs arbitrary: acc) (auto simp: set_add_def split: option.splits)

lemma unique_queries_loop_eq:
  "unique_queries_loop queries acc =
     foldl set_add acc
       (concat (map (\<lambda>query. concat (map (\<lambda>segment. case reference segment of
                                                      None \<Rightarrow> []
                                                    | Some r \<Rightarrow> if r = [] then [] else [r])
                                        (answer_segments query))) queries))"
  by (induction queries arbitrary: acc) (auto simp: unique_segments_loop_eq)

lemma foldl_set_add_first_seen:
  "foldl set_add acc xs = acc @ first_seen (filter (\<lambda>x. x \<notin> set acc) xs)"
proof (induction xs arbitrary: acc)
  case Nil
  then show ?case by simp
next
  case (Cons x xs)
  show ?case
  proof (cases "x \<in> set acc")
    case True
    then show ?thesis using Cons.IH[of acc] by (simp add: set_add_def)
  next
    case False
    have "filter (\<lambda>y. y \<notin> set (acc @ [x])) xs = filter (\<lambda>y. y \<noteq> x) (filter (\<lambda>y. y \<notin> set acc) xs)"
      by (induction xs) auto
    with False show ?thesis using Cons.IH[of "acc @ [x]"] by (simp add: set_add_def)
  qed
qed

lemma uniqueReferences_first_seen: "uniqueReferences d = first_seen (cited_references d)"
  by (simp add: uniqueReferences_def unique_queries_loop_eq foldl_set_add_first_seen cited_references_def)

lemma set_first_seen: "set (first_seen xs) = set xs"
proof (induction xs rule: first_seen.induct)
  case 1
  then show ?case by simp
next
  case (2 x xs)
  then show ?case by auto
qed

lemma distinct_first_seen: "distinct (first_seen xs)"
proof (induction xs rule: first_seen.induct)
  case 1
  then show ?case by simp
next
  case (2 x xs)
  then show ?case by (simp add: set_first_seen)
qed

text \<open>
  Claim C5. The Referenced Files section, and with it the whole output of
  \<open>generateMarkdown\<close>, is the same for two selections that are permutations of each other;
  and the numbered reference list holds the distinct reference strings of the
  conversation (those present and not empty) in the order of their first appearance
  across all turns.
\<close>
theorem selection_order_irrelevant:
  "(mset nums = mset nums' \<longrightarrow>
      formatReferencedFiles d incl (Some nums) = formatReferencedFiles d incl (Some nums')
      \<and> generateMarkdown d (opts\<lparr>referencesNumbers := Some nums\<rparr>)
          = generateMarkdown d (opts\<lparr>referencesNumbers := Some nums'\<rparr>))
   \<and> uniqueReferences d = first_seen (cited_references d)
   \<and> distinct (uniqueReferences d)
   \<and> set (uniqueReferences d) = set (cited_references d)
   \<and> formatReferences d
       = ''# References'' @ [nl, nl]
           @ concat (map reference_line (enumerate 0 (first_seen (cited_references d))))"
proof (intro conjI impI)
  assume "mset nums = mset nums'"
  then have s: "set nums = set nums'" by (rule mset_eq_setD)
  from formatReferencedFiles_selection_set[OF s]
  show "formatReferencedFiles d incl (Some nums) = formatReferencedFiles d incl (Some nums')" .
  from formatReferencedFiles_selection_set[OF s]
  show "generateMarkdown d (opts\<lparr>referencesNumbers := Some nums\<rparr>)
          = generateMarkdown d (opts\<lparr>referencesNumbers := Some nums'\<rparr>)"
    by (rule generateMarkdown_numbers)
next
  show "uniqueReferences d = first_seen (cited_references d)"
    by (rule uniqueReferences_first_seen)
  show "distinct (uniqueReferences d)"
    by (simp add: uniqueReferences_first_seen distinct_first_seen)
  show "set (uniqueReferences d) = set (cited_references d)"
    by (simp add: uniqueReferences_first_seen set_first_seen)
  show "formatReferences d
       = ''# References'' @ [nl, nl]
           @ concat (map reference_line (enumerate 0 (first_seen (cited_references d))))"
    by (simp add: formatReferences_def uniqueReferences_first_seen)
qed

lemma example_cited:
  "cited_references example_document
     = [''a/b: x.py:10-12'', ''a/b: y.py:1-2'', ''a/b: x.py:10-12'', ''a/b: z.py:3-4'']"
  by (simp add: cited_references_def example_document_def)

theorem selection_order_irrelevant_witness:
  "mset [2, 1] = mset [1, 2 :: int]
   \<and> formatReferencedFiles example_document False (Some [2, 1])
       = formatReferencedFiles example_document False (Some [1, 2])
   \<and> cited_references example_document
       = [''a/b: x.py:10-12'', ''a/b: y.py:1-2'', ''a/b: x.py:10-12'', ''a/b: z.py:3-4'']
   \<and> uniqueReferences example_document
       = [''a/b: x.py:10-12'', ''a/b: y.py:1-2'', ''a/b: z.py:3-4'']"
proof -
  have m: "mset [2, 1] = mset [1, 2 :: int]" by simp
  from selection_order_irrelevant[of "[2, 1]" "[1, 2]" example_document False example_options]
  have "formatReferencedFiles example_document False (Some [2, 1])
       = formatReferencedFiles example_document False (Some [1, 2])"
    using m by blast
  with m example_cited example_uniqueReferences show ?thesis by blast
qed

lemma validate_numbers_from_ok:
  "validate_numbers_from i nums = Inr () \<longleftrightarrow> list_all (\<lambda>n. 1 \<le> n) nums"
  by (induction nums arbitrary: i) auto

lemma validateReferencesNumbers_ok:
  "validateReferencesNumbers nums = Inr () \<longleftrightarrow> nums \<noteq> [] \<and> list_all (\<lambda>n. 1 \<le> n) nums"
  by (simp add: validateReferencesNumbers_def validate_numbers_from_ok)

text \<open>
  Claim C7. A selected number whose position lies outside the deduplicated reference list
  contributes nothing: the Referenced Files section and the whole output of
  \<open>generateMarkdown\<close> equal those for the selection with the out-of-bounds numbers
  removed, and the step of the selection loop leaves the set of included references as
  it is for such a number. The renderer is a total function to strings: it has no error
  to raise; and \<open>validateReferencesNumbers\<close>, which the tool runs first, rejects only the
  empty selection and numbers below 1, never a number beyond the list.
\<close>
theorem out_of_bounds_numbers_ignored:
  "formatReferencedFiles d incl (Some nums)
     = formatReferencedFiles d incl (Some (filter (in_bounds d) nums))
   \<and> generateMarkdown d (opts\<lparr>referencesNumbers := Some nums\<rparr>)
       = generateMarkdown d (opts\<lparr>referencesNumbers := Some (filter (in_bounds d) nums)\<rparr>)
   \<and> (\<forall>num acc. \<not> in_bounds d num \<longrightarrow> select_number (uniqueReferences d) acc num = acc)
   \<and> (validateReferencesNumbers nums = Inr () \<longleftrightarrow> nums \<noteq> [] \<and> list_all (\<lambda>n. 1 \<le> n) nums)"
proof -
  have i: "includedReferences (uniqueReferences d) b (Some (filter (in_bounds d) nums))
         = includedReferences (uniqueReferences d) b (Some nums)" for b
    unfolding includedReferences_def in_bounds_def by (simp add: foldl_select_filter)
  have f: "formatReferencedFiles d b (Some nums)
     = formatReferencedFiles d b (Some (filter (in_bounds d) nums))" for b
    by (rule formatReferencedFiles_set) (simp add: i)
  have g: "generateMarkdown d (opts\<lparr>referencesNumbers := Some nums\<rparr>)
       = generateMarkdown d (opts\<lparr>referencesNumbers := Some (filter (in_bounds d) nums)\<rparr>)"
    by (rule generateMarkdown_numbers) (rule f)
  have s: "\<forall>num acc. \<not> in_bounds d num \<longrightarrow> select_number (uniqueReferences d) acc num = acc"
    by (auto simp: in_bounds_def select_number_def Let_def)
  from f g s validateReferencesNumbers_ok show ?thesis by blast
qed

theorem out_of_bounds_numbers_ignored_witness:
  "filter (in_bounds example_document) [7, 2, 0, -1] = [2]
   \<and> formatReferencedFiles example_document False (Some [7, 2, 0, -1])
       = formatReferencedFiles example_document False (Some [2])
   \<and> formatReferencedFiles example_document False (Some [2])
       = ''# Referenced Files'' @ [nl, nl] @ ''## a/b/y.py'' @ [nl, nl] @ ''**[1-2]:**'' @ [nl, nl]
          @ ''````'' @ [nl] @ ''```js'' @ [nl] @ ''````'' @ [nl, nl]"
proof -
  have b: "filter (in_bounds example_document) [7, 2, 0, -1] = [2]"
    by (simp add: in_bounds_def example_uniqueReferences)
  have p: "parse_reference ''a/b: y.py:1-2'' = Some (''a/b/y.py'', ''1-2'')"
    by (simp add: parse_reference_def trim_def js_whitespace_def Let_def)
  have k: "fenced_block ''```js'' = ''````'' @ [nl] @ ''```js'' @ [nl] @ ''````'' @ [nl, nl]"
    by (simp add: fenced_block_def getCodeFence_def Let_def backtick_def endsWith_nl_def nl_def eval_nat_numeral)
  have ai: "\<not> is_array_index ''a/b/x.py''" "\<not> is_array_index ''a/b/y.py''"
    by (simp_all add: is_array_index_def is_digit_def)
  have r: "formatReferencedFiles example_document False (Some [2])
       = ''# Referenced Files'' @ [nl, nl] @ ''## a/b/y.py'' @ [nl, nl] @ ''**[1-2]:**'' @ [nl, nl]
          @ ''````'' @ [nl] @ ''```js'' @ [nl] @ ''````'' @ [nl, nl]"
    unfolding formatReferencedFiles_def example_uniqueReferences
    by (simp add: includedReferences_def select_number_def set_add_def group_reference_def p k ai
        object_entries_def example_document_def Let_def)
  from out_of_bounds_numbers_ignored[of example_document False "[7, 2, 0, -1]" example_options] b r
  show ?thesis by simp
qed

section \<open>Properties of the polling loop\<close>












section \<open>Properties of the question tool\<close>

lemma route_lookup:
  assumes "lookup_call params"
  shows "route_request env params =
     ([CacheRead ''question'' (or_empty (p_queryId params)) (p_repo params)],
      (case cache_getJSON env ''question'' (or_empty (p_queryId params)) (p_repo params) of
         None \<Rightarrow> Inl (NoCachedResponse (or_empty (p_queryId params)))
       | Some transformedJson \<Rightarrow> Inr (transformedJson, or_empty (p_queryId params))))"
  using assms by (simp add: route_request_def lookup_call_def Let_def)

lemma finish_effects:
  "\<not> is_automation e" if "e \<in> set (fst (finish_request env params d i))"
  using that by (auto simp: finish_request_def Let_def is_automation_def split: if_splits)

lemma finish_not_missing:
  "snd (finish_request env params d i) \<noteq> Inl (NoCachedResponse q)"
  by (auto simp: finish_request_def Let_def split: if_splits sum.splits)

lemma tool_invalid:
  "validate_params params = Inl e \<Longrightarrow> wikiQuestionTool env params = ([], Inl (InvalidParameter e))"
  by (simp add: wikiQuestionTool_def)

lemma tool_lookup_miss:
  assumes "lookup_call params" "validate_params params = Inr ()"
    "cache_getJSON env ''question'' (or_empty (p_queryId params)) (p_repo params) = None"
  shows "wikiQuestionTool env params =
     ([CacheRead ''question'' (or_empty (p_queryId params)) (p_repo params)],
      Inl (NoCachedResponse (or_empty (p_queryId params))))"
  using assms by (simp add: wikiQuestionTool_def route_lookup)

lemma tool_lookup_hit:
  assumes "lookup_call params" "validate_params params = Inr ()"
    "cache_getJSON env ''question'' (or_empty (p_queryId params)) (p_repo params) = Some cached"
  shows "wikiQuestionTool env params =
     (CacheRead ''question'' (or_empty (p_queryId params)) (p_repo params)
        # fst (finish_request env params cached (or_empty (p_queryId params))),
      snd (finish_request env params cached (or_empty (p_queryId params))))"
  using assms by (simp add: wikiQuestionTool_def route_lookup split_beta)

lemma render_as_is:
  assumes "lookup_call params"
  shows "render_markdown params cached =
     (if p_useDeepResearch params \<and> truthy (p_question params)
      then ''**Deep Research Mode Used**'' @ [nl, nl] @ generateMarkdown cached (p_options params)
      else generateMarkdown cached (p_options params))"
  using assms by (simp add: render_markdown_def lookup_call_def Let_def)

text \<open>
  Claim C9. For a call that supplies a query identifier with neither \<open>goDeeper\<close> nor a
  follow-up question: the call fails with the error \<open>No cached response found\<close> if and only
  if the cache lookup for that identifier is made and returns nothing (the lookup is made
  exactly when the parameters pass validation); when the lookup returns a document, that
  document is rendered as it is, and in no case is the browser automation invoked.
\<close>
theorem cached_lookup_or_error:
  assumes "lookup_call params"
  shows "(snd (wikiQuestionTool env params) = Inl (NoCachedResponse (or_empty (p_queryId params)))
          \<longleftrightarrow> CacheRead ''question'' (or_empty (p_queryId params)) (p_repo params)
                \<in> set (fst (wikiQuestionTool env params))
              \<and> cache_getJSON env ''question'' (or_empty (p_queryId params)) (p_repo params) = None)
    \<and> thrown (NoCachedResponse (or_empty (p_queryId params)))
        = Error (''No cached response found for query ID: '' @ or_empty (p_queryId params))
    \<and> (validate_params params = Inr () \<longrightarrow>
         (snd (wikiQuestionTool env params) = Inl (NoCachedResponse (or_empty (p_queryId params)))
          \<longleftrightarrow> cache_getJSON env ''question'' (or_empty (p_queryId params)) (p_repo params) = None))
    \<and> (\<forall>cached.
          validate_params params = Inr ()
          \<and> cache_getJSON env ''question'' (or_empty (p_queryId params)) (p_repo params) = Some cached
          \<longrightarrow> wikiQuestionTool env params
                = (CacheRead ''question'' (or_empty (p_queryId params)) (p_repo params)
                     # fst (finish_request env params cached (or_empty (p_queryId params))),
                   snd (finish_request env params cached (or_empty (p_queryId params))))
              \<and> render_markdown params cached
                  = (if p_useDeepResearch params \<and> truthy (p_question params)
                     then ''**Deep Research Mode Used**'' @ [nl, nl]
                            @ generateMarkdown cached (p_options params)
                     else generateMarkdown cached (p_options params)))
    \<and> list_all (\<lambda>e. \<not> is_automation e) (fst (wikiQuestionTool env params))"
proof -
  let ?q = "or_empty (p_queryId params)"
  let ?look = "cache_getJSON env ''question'' ?q (p_repo params)"
  let ?read = "CacheRead ''question'' ?q (p_repo params)"
  have cases: "(\<exists>e. validate_params params = Inl e)
      \<or> (validate_params params = Inr () \<and> ?look = None)
      \<or> (\<exists>cached. validate_params params = Inr () \<and> ?look = Some cached)"
    by (cases "validate_params params"; cases ?look) auto
  have a: "snd (wikiQuestionTool env params) = Inl (NoCachedResponse ?q)
          \<longleftrightarrow> ?read \<in> set (fst (wikiQuestionTool env params)) \<and> ?look = None"
    using cases
  proof (elim disjE exE conjE)
    fix e assume "validate_params params = Inl e"
    then show ?thesis by (simp add: tool_invalid)
  next
    assume "validate_params params = Inr ()" "?look = None"
    then show ?thesis using tool_lookup_miss[OF assms] by simp
  next
    fix cached assume "validate_params params = Inr ()" "?look = Some cached"
    then show ?thesis using tool_lookup_hit[OF assms] finish_not_missing by simp
  qed
  have b: "thrown (NoCachedResponse ?q) = Error (''No cached response found for query ID: '' @ ?q)"
    by (simp add: thrown_def)
  have c: "validate_params params = Inr () \<longrightarrow>
         (snd (wikiQuestionTool env params) = Inl (NoCachedResponse ?q) \<longleftrightarrow> ?look = None)"
  proof
    assume v: "validate_params params = Inr ()"
    show "snd (wikiQuestionTool env params) = Inl (NoCachedResponse ?q) \<longleftrightarrow> ?look = None"
    proof (cases ?look)
      case None
      then show ?thesis using tool_lookup_miss[OF assms v] by simp
    next
      case (Some cached)
      then show ?thesis using tool_lookup_hit[OF assms v] finish_not_missing by simp
    qed
  qed
  have d: "\<forall>cached. validate_params params = Inr () \<and> ?look = Some cached
          \<longrightarrow> wikiQuestionTool env params
                = (?read # fst (finish_request env params cached ?q),
                   snd (finish_request env params cached ?q))
              \<and> render_markdown params cached
                  = (if p_useDeepResearch params \<and> truthy (p_question params)
                     then ''**Deep Research Mode Used**'' @ [nl, nl]
                            @ generateMarkdown cached (p_options params)
                     else generateMarkdown cached (p_options params))"
    using tool_lookup_hit[OF assms] render_as_is[OF assms] by blast
  have e: "list_all (\<lambda>e. \<not> is_automation e) (fst (wikiQuestionTool env params))"
    using cases
  proof (elim disjE exE conjE)
    fix e assume "validate_params params = Inl e"
    then show ?thesis by (simp add: tool_invalid)
  next
    assume "validate_params params = Inr ()" "?look = None"
    then show ?thesis using tool_lookup_miss[OF assms] by (simp add: is_automation_def)
  next
    fix cached assume "validate_params params = Inr ()" "?look = Some cached"
    then show ?thesis using tool_lookup_hit[OF assms] finish_effects
      by (simp add: is_automation_def list_all_iff)
  qed
  from a b c d e show ?thesis by blast
qed

lemma example_params_valid: "validate_params (example_params ''facebook/react'' ''abc-1'') = Inr ()"
  by (simp add: validate_params_def example_params_def example_options_def truthy_def or_empty_def
      validateRepo_def validateQueryId_def validateReferencesNumbers_def trim_def js_whitespace_def
      validPattern_repo_def validPattern_queryId_def queryId_char_def repo_char_def is_alnum_def)

lemma example_params_lookup: "lookup_call (example_params r i) \<longleftrightarrow> i \<noteq> []"
  by (simp add: lookup_call_def example_params_def truthy_def)

theorem cached_lookup_or_error_witness:
  "lookup_call (example_params ''facebook/react'' ''abc-1'')
   \<and> wikiQuestionTool (example_env (\<lambda>i. None)) (example_params ''facebook/react'' ''abc-1'')
       = ([CacheRead ''question'' ''abc-1'' ''facebook/react''], Inl (NoCachedResponse ''abc-1''))
   \<and> wikiQuestionTool (example_env (\<lambda>i. if i = ''abc-1'' then Some example_document else None))
        (example_params ''facebook/react'' ''abc-1'')
       = ([CacheRead ''question'' ''abc-1'' ''facebook/react''],
          Inr (generateMarkdown example_document (example_options\<lparr>referencesNumbers := Some [2]\<rparr>)))"
proof -
  let ?p = "example_params ''facebook/react'' ''abc-1''"
  let ?miss = "example_env (\<lambda>i. None)"
  let ?hit = "example_env (\<lambda>i. if i = ''abc-1'' then Some example_document else None)"
  have l: "lookup_call ?p" by (simp add: example_params_lookup)
  have q: "or_empty (p_queryId ?p) = ''abc-1''" "p_repo ?p = ''facebook/react''"
    by (simp_all add: example_params_def or_empty_def)
  have m: "cache_getJSON ?miss ''question'' ''abc-1'' ''facebook/react'' = None"
    by (simp add: example_env_def)
  have h: "cache_getJSON ?hit ''question'' ''abc-1'' ''facebook/react'' = Some example_document"
    by (simp add: example_env_def)
  have f: "finish_request ?hit ?p example_document ''abc-1''
      = ([], Inr (generateMarkdown example_document (example_options\<lparr>referencesNumbers := Some [2]\<rparr>)))"
    by (simp add: finish_request_def render_markdown_def example_params_def truthy_def Let_def)
  from cached_lookup_or_error[OF l, of ?miss] m q example_params_valid
  have miss: "snd (wikiQuestionTool ?miss ?p) = Inl (NoCachedResponse ''abc-1'')"
    by simp
  from cached_lookup_or_error[OF l, of ?miss] miss m q
  have "CacheRead ''question'' ''abc-1'' ''facebook/react'' \<in> set (fst (wikiQuestionTool ?miss ?p))"
    by simp
  moreover have "fst (wikiQuestionTool ?miss ?p) = [CacheRead ''question'' ''abc-1'' ''facebook/react'']"
    using tool_lookup_miss[OF l example_params_valid, of ?miss] m q by simp
  ultimately have r1: "wikiQuestionTool ?miss ?p
       = ([CacheRead ''question'' ''abc-1'' ''facebook/react''], Inl (NoCachedResponse ''abc-1''))"
    using miss by (simp add: prod_eq_iff)
  from cached_lookup_or_error[OF l, of ?hit] h q example_params_valid f
  have r2: "wikiQuestionTool ?hit ?p
       = ([CacheRead ''question'' ''abc-1'' ''facebook/react''],
          Inr (generateMarkdown example_document (example_options\<lparr>referencesNumbers := Some [2]\<rparr>)))"
    by simp
  from l r1 r2 show ?thesis by blast
qed

end
